theory Spec2Isabelle
  imports Complex_Main
begin

section \<open>Strings\<close>

text \<open>
  A JavaScript string is modelled as a \<open>string\<close>; a character of the model stands for a
  UTF-16 code unit below 256.  \<open>startsWith s k\<close> is \<open>s.startsWith(k)\<close> and
  \<open>str_includes s k\<close> is \<open>s.includes(k)\<close>: the key occurs at some position of \<open>s\<close>.
\<close>

fun startsWith :: "string \<Rightarrow> string \<Rightarrow> bool" where
  "startsWith s [] = True"
| "startsWith [] (k # ks) = False"
| "startsWith (c # s) (k # ks) = (c = k \<and> startsWith s ks)"

fun str_includes :: "string \<Rightarrow> string \<Rightarrow> bool" where
  "str_includes [] k = (k = [])"
| "str_includes (c # s) k = (startsWith (c # s) k \<or> str_includes s k)"

text \<open>The words of a specification: \<open>k\<close> occurs as a substring of \<open>s\<close>.\<close>

definition occurs_in :: "string \<Rightarrow> string \<Rightarrow> bool" where
  "occurs_in k s = (\<exists>p q. s = p @ k @ q)"

section \<open>Role classification\<close>

datatype role = Wolf | JuniorWerewolf | SplitWolf | Priest | Shooter | Other | Unknown

text \<open>\<open>WOLF_ROLES = new Set(['Wolf', 'Junior Werewolf', 'Split Wolf'])\<close>; a missing role
  (\<open>null\<close>) is not a member.\<close>

definition WOLF_ROLES :: "role set" where
  "WOLF_ROLES = {Wolf, JuniorWerewolf, SplitWolf}"

definition is_wolf :: "role option \<Rightarrow> bool" where
  "is_wolf r = (case r of None \<Rightarrow> False | Some x \<Rightarrow> x \<in> WOLF_ROLES)"

text \<open>The object literal \<open>roleMap\<close> of \<open>getPlayerRole\<close>; \<open>Object.keys\<close> lists its keys in
  insertion order.\<close>

definition roleMap :: "(string \<times> role) list" where
  "roleMap =
    [(''juniorwerewolf'', JuniorWerewolf),
     (''junior_werewolf'', JuniorWerewolf),
     (''split_wolf'', SplitWolf),
     (''splitwolf'', SplitWolf),
     (''wolf'', Wolf),
     (''priest'', Priest),
     (''vigilante'', Shooter),
     (''gunner'', Shooter)]"

text \<open>The \<open>for (const key of Object.keys(roleMap))\<close> loop: the first key that the file name
  includes sets the role and breaks; \<open>role\<close> starts as \<open>'Other'\<close>.\<close>

fun roleLoop :: "(string \<times> role) list \<Rightarrow> string \<Rightarrow> role" where
  "roleLoop [] f = Other"
| "roleLoop ((key, r) # m) f = (if str_includes f key then r else roleLoop m f)"

text \<open>The argument is \<open>None\<close> when the caller passes \<open>undefined\<close>;
  \<open>!roleImageFilename\<close> holds for \<open>undefined\<close> and for the empty string.\<close>

definition getPlayerRole :: "string option \<Rightarrow> role" where
  "getPlayerRole roleImageFilename =
    (case roleImageFilename of
       None \<Rightarrow> Unknown
     | Some f \<Rightarrow> if f = [] then Unknown else roleLoop roleMap f)"

section \<open>Character classes and small string functions\<close>

text \<open>\<open>\d\<close>, \<open>\s\<close> and \<open>\w\<close> of a JavaScript regular expression without flags, on the
  characters of the model; \<open>\s\<close> and \<open>String.prototype.trim\<close> use the same white space.\<close>

definition is_digit :: "char \<Rightarrow> bool" where
  "is_digit c = (c \<in> set ''0123456789'')"

definition is_space :: "char \<Rightarrow> bool" where
  "is_space c = (c \<in> set [CHR 0x09, CHR 0x0A, CHR 0x0B, CHR 0x0C, CHR 0x0D, CHR 0x20, CHR 0xA0])"

definition is_word :: "char \<Rightarrow> bool" where
  "is_word c =
    (c \<in> set ''abcdefghijklmnopqrstuvwxyzABCDEFGHIJKLMNOPQRSTUVWXYZ0123456789_'')"

definition trim :: "string \<Rightarrow> string" where
  "trim t = rev (dropWhile is_space (rev (dropWhile is_space t)))"

text \<open>\<open>xs[i]\<close> of a JavaScript array: \<open>undefined\<close> out of range.\<close>

definition nth_opt :: "'a list \<Rightarrow> nat \<Rightarrow> 'a option" where
  "nth_opt xs i = (if i < length xs then Some (xs ! i) else None)"

text \<open>The same for an array whose entries may themselves be \<open>null\<close> or \<open>undefined\<close>.\<close>

definition nth_flat :: "'a option list \<Rightarrow> nat \<Rightarrow> 'a option" where
  "nth_flat xs i = (if i < length xs then xs ! i else None)"

section \<open>The document as the script observes it\<close>

text \<open>
  An element is a reference (an address); a snapshot records what the DOM queries of the
  script return at one moment of the page:
  \<^item> \<open>bodyTextContent\<close>, \<open>bodyInnerText\<close>: \<open>document.body.textContent\<close> and \<open>.innerText\<close>;
  \<^item> \<open>divTexts\<close>: the \<open>textContent\<close> of every \<open>div\<close>, in document order;
  \<^item> \<open>columnElements\<close>: \<open>querySelectorAll('[style*="flex-direction: column"]')\<close>;
  \<^item> \<open>bodyElements\<close>: \<open>document.body.querySelectorAll('*')\<close>; \<open>documentImages\<close>:
    \<open>document.images\<close>; \<open>spans\<close>: \<open>document.querySelectorAll('span')\<close>;
  \<^item> \<open>textarea\<close>: \<open>document.querySelector('textarea')\<close>, \<open>None\<close> for \<open>null\<close>;
  \<^item> for an element: \<open>textContent\<close>; \<open>images\<close>, the \<open>img\<close> elements below it
    (\<open>el.querySelectorAll('img')\<close>) in document order; \<open>src\<close> of an image; \<open>isVisible\<close>,
    the result of the script's visibility test; \<open>closestDiv\<close>, \<open>el.closest('div')\<close>;
    \<open>closestEnabled\<close>, \<open>el.closest('[tabindex="0"]:not([disabled])')\<close>; \<open>rectArea\<close>, the
    product \<open>rect.width * rect.height\<close> of its bounding rectangle (a finite double, hence
    a rational number).
\<close>

type_synonym elem = nat

record snapshot =
  bodyTextContent :: string
  bodyInnerText :: string
  divTexts :: "string list"
  columnElements :: "elem list"
  bodyElements :: "elem list"
  documentImages :: "elem list"
  spans :: "elem list"
  textarea :: "elem option"
  textContent :: "elem \<Rightarrow> string"
  images :: "elem \<Rightarrow> elem list"
  src :: "elem \<Rightarrow> string"
  isVisible :: "elem \<Rightarrow> bool"
  closestDiv :: "elem \<Rightarrow> elem option"
  closestEnabled :: "elem \<Rightarrow> elem option"
  rectArea :: "elem \<Rightarrow> rat"

text \<open>The \<open>src\<close> of every image below an element.\<close>

definition imgSrcs :: "snapshot \<Rightarrow> elem \<Rightarrow> string list" where
  "imgSrcs s el = map (src s) (images s el)"

section \<open>Phase label\<close>

text \<open>
  \<open>text.match(/^([\S\s]*?)\s*\d{1,2}s$/)\<close>.  The text must end in a digit and \<open>s\<close>.  The
  group is lazy, so it is the shortest prefix whose remainder is white space, one or two
  digits and \<open>s\<close>: the remainder takes a second digit when there is one, and then the whole
  run of white space before the digits.  The result is the group.
\<close>

definition matchTimer :: "string \<Rightarrow> string option" where
  "matchTimer t =
    (case rev t of
       c # d # r \<Rightarrow>
         if c = CHR ''s'' \<and> is_digit d then
           (let r1 = (case r of [] \<Rightarrow> r | d1 # r' \<Rightarrow> if is_digit d1 then r' else r)
            in Some (rev (dropWhile is_space r1)))
         else None
     | _ \<Rightarrow> None)"

text \<open>The loop of \<open>getLabelBeforeTime\<close> over the \<open>div\<close>s: the first text that matches gives
  \<open>match[1].trim()\<close>; \<open>null\<close> when none matches.\<close>

fun labelLoop :: "string list \<Rightarrow> string option" where
  "labelLoop [] = None"
| "labelLoop (t # ts) =
    (case matchTimer t of Some g \<Rightarrow> Some (trim g) | None \<Rightarrow> labelLoop ts)"

definition getLabelBeforeTime :: "snapshot \<Rightarrow> string option" where
  "getLabelBeforeTime s = labelLoop (divTexts s)"

definition isDay :: "snapshot \<Rightarrow> bool" where
  "isDay s = (let label = getLabelBeforeTime s
              in label = Some ''Discussion'' \<or> label = Some ''Voting'')"

definition isNight :: "snapshot \<Rightarrow> bool" where
  "isNight s = (getLabelBeforeTime s = Some [])"

section \<open>Page state extractor\<close>

record PlayerInfo =
  name :: string
  number :: "string option"
  role :: role
  coupleNumber1 :: "string option"
  coupleRole1 :: "role option"
  coupleNumber2 :: "string option"
  coupleRole2 :: "role option"

text \<open>\<open>/^\d+\s/.test(el.textContent.trim())\<close>: digits and then a white space.\<close>

definition startsWithSeat :: "string \<Rightarrow> bool" where
  "startsWithSeat t =
    (let u = trim t in
     takeWhile is_digit u \<noteq> [] \<and>
     (case dropWhile is_digit u of [] \<Rightarrow> False | c # _ \<Rightarrow> is_space c))"

definition allPlayerElements :: "snapshot \<Rightarrow> elem list" where
  "allPlayerElements s = filter (\<lambda>el. startsWithSeat (textContent s el)) (columnElements s)"

definition loverElements :: "snapshot \<Rightarrow> elem list" where
  "loverElements s =
    filter (\<lambda>el. list_ex (\<lambda>url. str_includes url ''cupid_select_lovers_sticker_small'')
                    (imgSrcs s el))
      (allPlayerElements s)"

text \<open>The lovers that are not the operating player.\<close>

definition otherLovers :: "snapshot \<Rightarrow> string \<Rightarrow> elem list" where
  "otherLovers s myName =
    filter (\<lambda>el. \<not> str_includes (textContent s el) myName) (loverElements s)"

text \<open>\<open>while (coupleElements.length < 2) coupleElements.push(null)\<close>.\<close>

definition coupleElements :: "snapshot \<Rightarrow> string \<Rightarrow> elem option list" where
  "coupleElements s myName =
    (let ce = map Some (otherLovers s myName) in ce @ replicate (2 - length ce) None)"

text \<open>\<open>img.src.split('/')\<close>, last part.\<close>

definition fileName :: "string \<Rightarrow> string" where
  "fileName url = rev (takeWhile (\<lambda>c. c \<noteq> CHR ''/'') (rev url))"

definition getPlayerImageFilenames :: "snapshot \<Rightarrow> elem list \<Rightarrow> string list list" where
  "getPlayerImageFilenames s elements = map (\<lambda>el. map fileName (imgSrcs s el)) elements"

definition coupleImageSets :: "snapshot \<Rightarrow> string \<Rightarrow> string list list" where
  "coupleImageSets s myName = getPlayerImageFilenames s (otherLovers s myName)"

definition myImageSets :: "snapshot \<Rightarrow> string \<Rightarrow> string list list" where
  "myImageSets s myName =
    getPlayerImageFilenames s
      (filter (\<lambda>el. str_includes (textContent s el) myName) (loverElements s))"

definition isDecoration :: "string \<Rightarrow> bool" where
  "isDecoration f =
    (str_includes f ''vote_day'' \<or> str_includes f ''hand-skin'' \<or> str_includes f ''cupid'')"

text \<open>The index walks down from the end while the name is a decoration; \<open>set[i]\<close> is
  \<open>undefined\<close> once the index is below zero, which ends the loop.\<close>

definition roleImageOf :: "string list \<Rightarrow> string option" where
  "roleImageOf imgs = (case dropWhile isDecoration (rev imgs) of [] \<Rightarrow> None | f # _ \<Rightarrow> Some f)"

definition extractRoleImage :: "string list list \<Rightarrow> string option list" where
  "extractRoleImage imageSets = map roleImageOf imageSets"

text \<open>\<open>el ? (el.textContent.match(/\d+/)?.[0] || null) : null\<close>: the first run of digits.\<close>

definition getPlayerNumber :: "snapshot \<Rightarrow> elem option \<Rightarrow> string option" where
  "getPlayerNumber s e =
    (case e of
       None \<Rightarrow> None
     | Some el \<Rightarrow>
         (let ds = takeWhile is_digit (dropWhile (\<lambda>c. \<not> is_digit c) (textContent s el))
          in if ds = [] then None else Some ds))"

text \<open>\<open>img ? getPlayerRole(img) : null\<close>; \<open>undefined\<close> and the empty string are falsy.\<close>

definition getRoleFromImage :: "string option \<Rightarrow> role option" where
  "getRoleFromImage img =
    (case img of
       None \<Rightarrow> None
     | Some f \<Rightarrow> if f = [] then None else Some (getPlayerRole (Some f)))"

text \<open>The object \<open>playerInfo\<close> that \<open>inGame(myName)\<close> builds.\<close>

definition playerInfo :: "snapshot \<Rightarrow> string \<Rightarrow> PlayerInfo" where
  "playerInfo s myName =
    (let myRoleImages = extractRoleImage (myImageSets s myName);
         coupleRoleImages = extractRoleImage (coupleImageSets s myName);
         myPlayerElement = find (\<lambda>el. str_includes (textContent s el) myName)
                             (allPlayerElements s)
     in \<lparr> name = myName,
          number = getPlayerNumber s myPlayerElement,
          role = getPlayerRole (nth_flat myRoleImages 0),
          coupleNumber1 = getPlayerNumber s (nth_flat (coupleElements s myName) 0),
          coupleRole1 = getRoleFromImage (nth_flat coupleRoleImages 0),
          coupleNumber2 = getPlayerNumber s (nth_flat (coupleElements s myName) 1),
          coupleRole2 = getRoleFromImage (nth_flat coupleRoleImages 1) \<rparr>)"

section \<open>Reading the game state\<close>

definition findTextInDocument :: "snapshot \<Rightarrow> string \<Rightarrow> bool" where
  "findTextInDocument s t = str_includes (bodyTextContent s) t"

definition gameIsOver :: "snapshot \<Rightarrow> bool" where
  "gameIsOver s =
    (findTextInDocument s ''Continue'' \<or> findTextInDocument s ''Play again'' \<or>
     findTextInDocument s ''Victory'' \<or> findTextInDocument s ''Defeat'' \<or>
     findTextInDocument s ''Draw'')"

text \<open>
  Every image pattern of the handlers has the form \<open>/.*KEY.*\.png/\<close> and is represented by
  its \<open>KEY\<close>.  \<open>regex.test(url)\<close> holds when \<open>KEY\<close> occurs in the address and \<open>.png\<close> follows
  it with no line terminator in between (the dot matches none).
\<close>

definition is_line_terminator :: "char \<Rightarrow> bool" where
  "is_line_terminator c = (c = CHR 0x0A \<or> c = CHR 0x0D)"

fun imageRegexTest :: "string \<Rightarrow> string \<Rightarrow> bool" where
  "imageRegexTest key [] = False"
| "imageRegexTest key (c # u) =
    ((startsWith (c # u) key \<and>
      str_includes (takeWhile (\<lambda>x. \<not> is_line_terminator x) (drop (length key) (c # u))) ''.png'')
     \<or> imageRegexTest key u)"

definition findImageInElement :: "snapshot \<Rightarrow> elem \<Rightarrow> string \<Rightarrow> bool" where
  "findImageInElement s element key = list_ex (imageRegexTest key) (imgSrcs s element)"

text \<open>
  \<open>getMessages\<close>: over the spans whose text has a colon and that lie in a \<open>div\<close>, keep those
  whose \<open>div\<close> has the least area; \<open>minWidth\<close> starts as \<open>Infinity\<close> (\<open>None\<close>).  The result
  is \<open>null\<close> when no span is kept.
\<close>

fun messageLoop ::
  "snapshot \<Rightarrow> elem list \<Rightarrow> rat option \<Rightarrow> (elem \<times> string) list \<Rightarrow> (elem \<times> string) list" where
  "messageLoop s [] minWidth messageElements = messageElements"
| "messageLoop s (sp # rest) minWidth messageElements =
    (if str_includes (textContent s sp) '':'' then
       (case closestDiv s sp of
          None \<Rightarrow> messageLoop s rest minWidth messageElements
        | Some containerDiv \<Rightarrow>
            (let containerSize = rectArea s containerDiv in
             if (case minWidth of None \<Rightarrow> True | Some m \<Rightarrow> containerSize < m) then
               messageLoop s rest (Some containerSize) [(containerDiv, textContent s sp)]
             else if minWidth = Some containerSize then
               messageLoop s rest minWidth
                 (messageElements @ [(containerDiv, textContent s sp)])
             else messageLoop s rest minWidth messageElements))
     else messageLoop s rest minWidth messageElements)"

text \<open>\<open>text.replace(pattern, '')\<close> with a string pattern: the first occurrence is removed.\<close>

fun removeFirst :: "string \<Rightarrow> string \<Rightarrow> string" where
  "removeFirst [] pat = []"
| "removeFirst (c # t) pat =
    (if startsWith (c # t) pat then drop (length pat) (c # t) else c # removeFirst t pat)"

definition getMessages :: "snapshot \<Rightarrow> string list option" where
  "getMessages s =
    (let messageElements = messageLoop s (spans s) None [] in
     if messageElements = [] then None
     else Some (map (\<lambda>(d, spanText). trim (removeFirst (textContent s d) spanText))
                 messageElements))"

text \<open>
  \<open>msg.match(/\b\d{1,2}\b/g) || []\<close>.  A digit is a word character, so a match is a maximal
  run of word characters that consists of one or two digits; \<open>wordRuns\<close> lists the maximal
  runs of word characters from left to right.
\<close>

fun wordRuns :: "string \<Rightarrow> string \<Rightarrow> string list" where
  "wordRuns run [] = (if run = [] then [] else [rev run])"
| "wordRuns run (c # t) =
    (if is_word c then wordRuns (c # run) t
     else (if run = [] then [] else [rev run]) @ wordRuns [] t)"

definition numberTokens :: "string \<Rightarrow> string list" where
  "numberTokens msg =
    filter (\<lambda>r. list_all is_digit r \<and> length r \<le> 2) (wordRuns [] msg)"

text \<open>
  The words of a specification for the tokens of \<open>/\b\d{1,2}\b/g\<close>: \<open>t\<close> is one or two digits
  and occurs in the message with no word character right before it and right after it.
  \<open>isRun\<close> says the same of a run of word characters.
\<close>

definition isRun :: "string \<Rightarrow> string \<Rightarrow> bool" where
  "isRun r s =
    (r \<noteq> [] \<and> list_all is_word r \<and>
     (\<exists>p q. s = p @ r @ q \<and> (p = [] \<or> \<not> is_word (last p)) \<and> (q = [] \<or> \<not> is_word (hd q))))"

definition tokenOccurs :: "string \<Rightarrow> string \<Rightarrow> bool" where
  "tokenOccurs t msg =
    ((length t = 1 \<or> length t = 2) \<and> list_all is_digit t \<and>
     (\<exists>p q. msg = p @ t @ q \<and> (p = [] \<or> \<not> is_word (last p)) \<and> (q = [] \<or> \<not> is_word (hd q))))"

section \<open>Time and waiting\<close>

text \<open>
  The script runs on one thread; between two suspensions its reads see one document.  A
  world gives, for every observation point (a turn of the script: after a timer of a poll
  or of a sleep), the document and the value of \<open>Date.now()\<close>.  Nothing is assumed about
  how the page changes or how the clock advances.
\<close>

record world =
  dom :: "nat \<Rightarrow> snapshot"
  clock :: "nat \<Rightarrow> int"

text \<open>\<open>cancelConditions\<close> is \<open>null\<close>, a string or an array of strings:
  \<open>cancelConditions ? (Array.isArray(cancelConditions) ? cancelConditions : [cancelConditions]) : []\<close>;
  the empty string is falsy.\<close>

datatype cancelConditions = NoCancel | CancelText string | CancelTexts "string list"

definition cancelTextsOf :: "cancelConditions \<Rightarrow> string list" where
  "cancelTextsOf c =
    (case c of
       NoCancel \<Rightarrow> []
     | CancelText t \<Rightarrow> if t = [] then [] else [t]
     | CancelTexts ts \<Rightarrow> ts)"

text \<open>\<open>cancelTexts.find(text => pageText.includes(text))\<close> followed by
  \<open>if (foundCancelText)\<close>: the first text that the page includes, and it must be truthy.\<close>

definition cancelled :: "string list \<Rightarrow> snapshot \<Rightarrow> bool" where
  "cancelled cancelTexts s =
    (cancelTexts \<noteq> [] \<and>
     (case find (\<lambda>t. str_includes (bodyInnerText s) t) cancelTexts of
        None \<Rightarrow> False
      | Some foundCancelText \<Rightarrow> foundCancelText \<noteq> []))"

text \<open>
  The closure \<open>check\<close> of \<open>waitForCondition\<close>, started at observation point \<open>start\<close> and
  running at point \<open>i\<close>; \<open>setTimeout(check, interval)\<close> runs it again at the next point.
  The result is the value the promise resolves to (\<open>None\<close> for \<open>null\<close>) and the point at which
  it resolves; the function has no value when the promise never resolves.
\<close>

partial_function (option) check ::
  "world \<Rightarrow> (snapshot \<Rightarrow> 'a option) \<Rightarrow> int \<Rightarrow> string list \<Rightarrow> nat \<Rightarrow> nat \<Rightarrow> ('a option \<times> nat) option"
where
  "check w conditionFn timeout cancelTexts start i =
    (case conditionFn (dom w i) of
       Some result \<Rightarrow> Some (Some result, i)
     | None \<Rightarrow>
         if cancelled cancelTexts (dom w i) then Some (None, i)
         else if clock w i - clock w start \<ge> timeout then Some (None, i)
         else check w conditionFn timeout cancelTexts start (Suc i))"

declare check.simps [code]

definition waitForCondition ::
  "world \<Rightarrow> (snapshot \<Rightarrow> 'a option) \<Rightarrow> int \<Rightarrow> int \<Rightarrow> cancelConditions \<Rightarrow> nat
    \<Rightarrow> ('a option \<times> nat) option" where
  "waitForCondition w conditionFn timeout interval cancelConditions k =
    check w conditionFn timeout (cancelTextsOf cancelConditions) k k"

text \<open>The earlier revision of the file takes one cancel text:
  \<open>if (cancelText && document.body.innerText.includes(cancelText))\<close>.\<close>

definition cancelled1 :: "string option \<Rightarrow> snapshot \<Rightarrow> bool" where
  "cancelled1 cancelText s =
    (case cancelText of
       None \<Rightarrow> False
     | Some t \<Rightarrow> t \<noteq> [] \<and> str_includes (bodyInnerText s) t)"

partial_function (option) check1 ::
  "world \<Rightarrow> (snapshot \<Rightarrow> 'a option) \<Rightarrow> int \<Rightarrow> string option \<Rightarrow> nat \<Rightarrow> nat \<Rightarrow> ('a option \<times> nat) option"
where
  "check1 w conditionFn timeout cancelText start i =
    (case conditionFn (dom w i) of
       Some result \<Rightarrow> Some (Some result, i)
     | None \<Rightarrow>
         if cancelled1 cancelText (dom w i) then Some (None, i)
         else if clock w i - clock w start \<ge> timeout then Some (None, i)
         else check1 w conditionFn timeout cancelText start (Suc i))"

declare check1.simps [code]

definition waitForCondition1 ::
  "world \<Rightarrow> (snapshot \<Rightarrow> 'a option) \<Rightarrow> int \<Rightarrow> int \<Rightarrow> string option \<Rightarrow> nat
    \<Rightarrow> ('a option \<times> nat) option" where
  "waitForCondition1 w conditionFn timeout interval cancelText k =
    check1 w conditionFn timeout cancelText k k"

section \<open>Finders built on the wait\<close>

text \<open>Each finder passes its condition to \<open>waitForCondition\<close> with the default interval of
  200 ms; the caller gives the timeout (30000 by default) and the cancel text.\<close>

definition waitForTextInDOM ::
  "world \<Rightarrow> string \<Rightarrow> int \<Rightarrow> cancelConditions \<Rightarrow> nat \<Rightarrow> (elem option \<times> nat) option" where
  "waitForTextInDOM w t timeout cancelText k =
    waitForCondition w
      (\<lambda>s. find (\<lambda>el. str_includes (textContent s el) t \<and> isVisible s el) (bodyElements s))
      timeout 200 cancelText k"

text \<open>\<open>new RegExp(`\\b${text}\\b`).test(content)\<close> for a text of word characters (the
  callers pass \<open>'5s'\<close>): an occurrence with no word character right before and right after
  it.  The flag says whether the character before the current position is a word
  character.\<close>

fun exactTextTest :: "string \<Rightarrow> bool \<Rightarrow> string \<Rightarrow> bool" where
  "exactTextTest t pw [] = False"
| "exactTextTest t pw (c # u) =
    ((\<not> pw \<and> startsWith (c # u) t \<and>
      (case drop (length t) (c # u) of [] \<Rightarrow> True | d # _ \<Rightarrow> \<not> is_word d))
     \<or> exactTextTest t (is_word c) u)"

definition waitForExactText ::
  "world \<Rightarrow> string \<Rightarrow> int \<Rightarrow> cancelConditions \<Rightarrow> nat \<Rightarrow> (elem option \<times> nat) option" where
  "waitForExactText w t timeout cancelText k =
    waitForCondition w
      (\<lambda>s. find (\<lambda>el. exactTextTest t False (textContent s el) \<and> isVisible s el)
             (bodyElements s))
      timeout 200 cancelText k"

definition waitForImageInDOM ::
  "world \<Rightarrow> string \<Rightarrow> int \<Rightarrow> cancelConditions \<Rightarrow> nat \<Rightarrow> (elem option \<times> nat) option" where
  "waitForImageInDOM w imageNamePart timeout cancelText k =
    waitForCondition w
      (\<lambda>s. find (\<lambda>img. str_includes (src s img) imageNamePart \<and> isVisible s img)
             (documentImages s))
      timeout 200 cancelText k"

text \<open>The condition of \<open>waitForImageCountInDOM\<close>: the count is tested after every image of
  \<open>document.images\<close>, and the function returns nothing when the images run out.\<close>

fun imageCountLoop ::
  "snapshot \<Rightarrow> string \<Rightarrow> int \<Rightarrow> elem list \<Rightarrow> elem list \<Rightarrow> elem list option" where
  "imageCountLoop s imageNamePart count foundImages [] = None"
| "imageCountLoop s imageNamePart count foundImages (img # rest) =
    (let found = (if str_includes (src s img) imageNamePart \<and> isVisible s img
                  then foundImages @ [img] else foundImages)
     in if int (length found) \<ge> count then Some found
        else imageCountLoop s imageNamePart count found rest)"

definition waitForImageCountInDOM ::
  "world \<Rightarrow> string \<Rightarrow> int \<Rightarrow> int \<Rightarrow> cancelConditions \<Rightarrow> nat
    \<Rightarrow> (elem list option \<times> nat) option" where
  "waitForImageCountInDOM w imageNamePart count timeout cancelText k =
    waitForCondition w (\<lambda>s. imageCountLoop s imageNamePart count [] (documentImages s))
      timeout 200 cancelText k"

section \<open>Actions\<close>

text \<open>
  What a handler does is recorded as the list of its calls to the action dispatcher and of
  its suspensions, in program order.  An image pattern is given by its key.
  \<open>SetValue\<close> is the call of the native value setter on the chat input, \<open>DispatchEvent\<close> the
  synthetic \<open>input\<close> and \<open>change\<close> events.  \<open>Later ms as\<close> stands for code that the handler
  leaves behind without waiting for it (a \<open>setTimeout\<close> callback, or the rest of an
  \<open>async\<close> call that is not awaited): it runs \<open>ms\<close> milliseconds later and then does \<open>as\<close>.
  Console lines are not recorded, except the first line of \<open>shooterAction\<close>, which prints
  the threshold of the invocation.
\<close>

datatype action =
    ClickElementByImage string
  | ClickElementByImageInElement elem string
  | ClickOutermostElement elem
  | ClickInnermostElementByImage string
  | Click elem
  | SetValue elem "string option"
  | DispatchEvent elem string
  | Sleep int
  | AwaitImage string
  | AwaitImageCount string int
  | AwaitText string
  | AwaitExactText string
  | LogLooking int
  | Later int "action list"
  | Reload

text \<open>A handler returns or throws (its promise rejects); the run of a handler is its
  actions, how it ended and the observation point at which it ended, and has no value when
  a wait inside it never resolves.\<close>

datatype outcome = Returned | Threw

type_synonym run = "(action list \<times> outcome \<times> nat) option"

definition prepend :: "action list \<Rightarrow> run \<Rightarrow> run" where
  "prepend as r = map_option (\<lambda>(tr, oc, k). (as @ tr, oc, k)) r"

section \<open>Day\<close>

definition VOTE_MARKER_IMG :: string where
  "VOTE_MARKER_IMG = ''vote_day_selected''"

text \<open>\<open>shooterAction\<close>; \<open>coupleElements.includes(el)\<close> compares references, and the array may
  hold \<open>null\<close>.\<close>

function shooterAction ::
  "world \<Rightarrow> PlayerInfo \<Rightarrow> elem option list \<Rightarrow> elem list \<Rightarrow> int \<Rightarrow> nat \<Rightarrow> run" where
  "shooterAction w P ce allPlayers voteMarkersToFind k =
    (if voteMarkersToFind > 4 then Some ([LogLooking voteMarkersToFind], Returned, k)
     else
       (case waitForImageCountInDOM w VOTE_MARKER_IMG voteMarkersToFind 90000
               (CancelText ''Continue'') k of
          None \<Rightarrow> None
        | Some (found, k1) \<Rightarrow>
            if gameIsOver (dom w k1) then
              Some ([LogLooking voteMarkersToFind,
                     AwaitImageCount VOTE_MARKER_IMG voteMarkersToFind], Returned, k1)
            else
              (case find (\<lambda>el. findImageInElement (dom w (Suc k1)) el VOTE_MARKER_IMG \<and>
                               Some el \<notin> set ce \<and>
                               \<not> str_includes (textContent (dom w (Suc k1)) el) (name P))
                      allPlayers of
                 Some target \<Rightarrow>
                   Some ([LogLooking voteMarkersToFind,
                          AwaitImageCount VOTE_MARKER_IMG voteMarkersToFind,
                          ClickElementByImage ''gunner_bullet'', Sleep 200,
                          ClickElementByImageInElement target ''gunner_voting_shoot''],
                         Returned, Suc k1)
               | None \<Rightarrow>
                   prepend [LogLooking voteMarkersToFind,
                            AwaitImageCount VOTE_MARKER_IMG voteMarkersToFind,
                            ClickElementByImage ''gunner_bullet'', Sleep 200, Sleep 500]
                     (shooterAction w P ce allPlayers (voteMarkersToFind + 1)
                        (Suc (Suc k1))))))"
  by pat_completeness auto
termination
  by (relation "measure (\<lambda>(w, P, ce, allPlayers, voteMarkersToFind, k).
        nat (5 - voteMarkersToFind))") auto

declare shooterAction.simps [simp del]

text \<open>The chat transcript mentions the seat: \<open>mentionedNumbers?.some(num => num ==
  playerInfo.number)\<close>; both sides are strings, or the number is \<open>null\<close>.\<close>

definition numberMentioned :: "snapshot \<Rightarrow> PlayerInfo \<Rightarrow> bool" where
  "numberMentioned s P =
    (case getMessages s of
       None \<Rightarrow> False
     | Some messages \<Rightarrow>
         list_ex (\<lambda>num. Some num = number P) (concat (map numberTokens messages)))"

definition isWolfCoupled :: "PlayerInfo \<Rightarrow> bool" where
  "isWolfCoupled P = (is_wolf (coupleRole1 P) \<or> is_wolf (coupleRole2 P))"

text \<open>The table \<open>abilities\<close>: trigger and action pattern of a role, \<open>undefined\<close> for the
  others.\<close>

definition abilities :: "role \<Rightarrow> (string \<times> string) option" where
  "abilities r =
    (if r = Priest then Some (''priest_holy_water'', ''priest_holy_water'')
     else if r = Shooter then Some (''gunner_bullet'', ''gunner_voting_shoot'')
     else None)"

text \<open>The end of the wolf-coupled branch: the ability of a Priest or a Shooter.  The
  callback that the Priest leaves behind reads the document of the next observation
  point.\<close>

definition coupledAbility ::
  "world \<Rightarrow> PlayerInfo \<Rightarrow> elem option list \<Rightarrow> elem list \<Rightarrow> nat \<Rightarrow> run" where
  "coupledAbility w P ce allPlayers k =
    (if role P = Priest then
       Some ([ClickElementByImage ''priest_holy_water'',
              Later 200
                (case find (\<lambda>p. findImageInElement (dom w (Suc k)) p ''priest_holy_water'')
                        allPlayers of
                   None \<Rightarrow> []
                 | Some votedPlayer \<Rightarrow>
                     [ClickElementByImageInElement votedPlayer ''priest_holy_water''])],
             Returned, k)
     else if role P = Shooter then shooterAction w P ce allPlayers 2 k
     else Some ([], Returned, k))"

text \<open>\<open>inGameDay\<close>.  Two reads can throw a \<open>TypeError\<close>: the value setter called on a
  missing chat input, and \<open>targetLover.textContent\<close> on a missing partner element.\<close>

definition inGameDay ::
  "world \<Rightarrow> PlayerInfo \<Rightarrow> elem option list \<Rightarrow> string list list \<Rightarrow> elem list \<Rightarrow> nat \<Rightarrow> run"
where
  "inGameDay w P ce playerImages allPlayers k =
    (let s = dom w k in
     if gameIsOver s then Some ([], Returned, k)
     else if \<not> isWolfCoupled P then
       (if role P \<in> WOLF_ROLES then
          (if numberMentioned s P then Some ([], Returned, k)
           else if gameIsOver s then Some ([], Returned, k)
           else
             (case textarea s of
                None \<Rightarrow> Some ([], Threw, k)
              | Some chatInput \<Rightarrow>
                  Some ([SetValue chatInput (number P),
                         DispatchEvent chatInput ''input'',
                         DispatchEvent chatInput ''change'',
                         ClickElementByImage ''icon_send'', Sleep 500], Returned, Suc k)))
        else
          (case abilities (role P) of
             None \<Rightarrow> Some ([], Returned, k)
           | Some (triggerRegex, actionRegex) \<Rightarrow>
               (case waitForImageInDOM w ''vote_day_selected'' 90000
                       (CancelText ''Continue'') k of
                  None \<Rightarrow> None
                | Some (found, k1) \<Rightarrow>
                    if gameIsOver (dom w k1) then
                      Some ([AwaitImage ''vote_day_selected''], Returned, k1)
                    else
                      Some ([AwaitImage ''vote_day_selected'',
                             ClickElementByImage triggerRegex, Sleep 200] @
                            (case find (\<lambda>p. findImageInElement (dom w (Suc k1)) p
                                             ''vote_day_selected'') allPlayers of
                               None \<Rightarrow> []
                             | Some votedPlayer \<Rightarrow>
                                 [ClickElementByImageInElement votedPlayer actionRegex]),
                            Returned, Suc k1))))
     else
       (let alreadyVotedForCouple =
              list_ex (\<lambda>imgSet. list_ex (\<lambda>img. str_includes img ''cupid'') imgSet) playerImages
        in if alreadyVotedForCouple then coupledAbility w P ce allPlayers k
           else
             (case (if is_wolf (coupleRole1 P) then nth_flat ce 0 else nth_flat ce 1) of
                None \<Rightarrow> Some ([], Threw, k)
              | Some targetLover \<Rightarrow>
                  prepend [ClickOutermostElement targetLover]
                    (coupledAbility w P ce allPlayers k))))"

section \<open>Night\<close>

text \<open>A value inside a template literal: \<open>null\<close> prints as \<open>null\<close>.\<close>

definition render :: "string option \<Rightarrow> string" where
  "render v = (case v of None \<Rightarrow> ''null'' | Some t \<Rightarrow> t)"

text \<open>
  \<open>sendMessageAndAct\<close> is called without \<open>await\<close>: it runs up to its \<open>sleep(500)\<close> at once and
  the click on the target follows later.  A missing chat input makes the value setter
  throw inside the call, whose promise nobody awaits.
\<close>

definition sendMessageAndAct ::
  "snapshot \<Rightarrow> PlayerInfo \<Rightarrow> string option \<Rightarrow> elem option \<Rightarrow> action list" where
  "sendMessageAndAct s P message targetElement =
    (if gameIsOver s then []
     else
       (case textarea s of
          None \<Rightarrow> []
        | Some chatInput \<Rightarrow>
            [SetValue chatInput message,
             DispatchEvent chatInput ''input'',
             DispatchEvent chatInput ''change'',
             ClickElementByImage ''icon_send'',
             Later 500
               (case targetElement of
                  None \<Rightarrow> []
                | Some t \<Rightarrow>
                    (let isNotPriestCoupled =
                           (coupleRole1 P \<noteq> Some Priest \<and> coupleRole2 P \<noteq> Some Priest)
                     in if isNotPriestCoupled \<or> role P = JuniorWerewolf
                        then [ClickOutermostElement t] else []))]))"

text \<open>\<open>parseInt(taggedNumber, 10)\<close> of a string of digits.\<close>

definition digitValue :: "char \<Rightarrow> nat" where
  "digitValue c = of_char c - 48"

definition parseInt :: "string \<Rightarrow> nat" where
  "parseInt ds = foldl (\<lambda>n c. 10 * n + digitValue c) 0 ds"

text \<open>
  The \<open>setTimeout\<close> callback of \<open>handleWolfTagging\<close>, on the document it finds 200 ms later.
  \<open>allPlayerElements[n - 1]\<close> is \<open>undefined\<close> out of range, and the callback then throws on
  \<open>querySelectorAll\<close>, inside the timer.
\<close>

definition tagCallback ::
  "snapshot \<Rightarrow> PlayerInfo \<Rightarrow> elem list \<Rightarrow> string \<Rightarrow> action list" where
  "tagCallback s P allPlayers selectionMarker =
    (case getMessages s of
       None \<Rightarrow> []
     | Some chatMessages \<Rightarrow>
         (let nonLoverNumbers = [number P, coupleNumber1 P, coupleNumber2 P] in
          case filter (\<lambda>num. Some num \<notin> set nonLoverNumbers)
                 (concat (map numberTokens chatMessages)) of
            [] \<Rightarrow> []
          | taggedNumber # _ \<Rightarrow>
              (case (if parseInt taggedNumber = 0 then None
                     else nth_opt allPlayers (parseInt taggedNumber - 1)) of
                 None \<Rightarrow> []
               | Some targetPlayerElement \<Rightarrow>
                   (case find (\<lambda>img. imageRegexTest selectionMarker (src s img))
                           (images s targetPlayerElement) of
                      None \<Rightarrow> []
                    | Some targetImage \<Rightarrow>
                        (case closestEnabled s targetImage of
                           None \<Rightarrow> []
                         | Some clickableButton \<Rightarrow> [Click clickableButton])))))"

definition noNightAction :: "PlayerInfo \<Rightarrow> bool" where
  "noNightAction P =
    ((is_wolf (coupleRole1 P) \<and> is_wolf (coupleRole2 P)) \<or>
     (is_wolf (coupleRole1 P) \<and> coupleRole2 P = None))"

definition handleWolfTagging ::
  "world \<Rightarrow> PlayerInfo \<Rightarrow> elem option list \<Rightarrow> elem list \<Rightarrow> string \<Rightarrow> nat \<Rightarrow> run" where
  "handleWolfTagging w P ce allPlayers selectionMarker k =
    (if noNightAction P then Some ([], Returned, k)
     else if gameIsOver (dom w k) then Some ([], Returned, k)
     else
       (case waitForTextInDOM w ''25s'' 30000 (CancelText ''Continue'') k of
          None \<Rightarrow> None
        | Some (el1, k1) \<Rightarrow>
            if gameIsOver (dom w k1) \<or> findTextInDocument (dom w k1) ''Voting'' then
              Some ([AwaitText ''25s''], Returned, k1)
            else
              (let isPartnerAWolf = (\<not> is_wolf (coupleRole1 P));
                   message = ''Who? Mine '' @
                     render (if isPartnerAWolf then coupleNumber1 P else coupleNumber2 P);
                   targetElement = (if isPartnerAWolf then nth_flat ce 0 else nth_flat ce 1);
                   sent = sendMessageAndAct (dom w k1) P (Some message) targetElement
               in case waitForExactText w ''5s'' 30000 (CancelText ''Continue'') k1 of
                    None \<Rightarrow> None
                  | Some (el2, k2) \<Rightarrow>
                      if gameIsOver (dom w k2) \<or> findTextInDocument (dom w k2) ''Voting'' then
                        Some ([AwaitText ''25s''] @ sent @ [AwaitExactText ''5s''],
                              Returned, k2)
                      else
                        (case waitForTextInDOM w ''Voting'' 30000 (CancelText ''Continue'')
                                k2 of
                           None \<Rightarrow> None
                         | Some (el3, k3) \<Rightarrow>
                             Some ([AwaitText ''25s''] @ sent @
                                   [AwaitExactText ''5s'',
                                    ClickElementByImage selectionMarker,
                                    Later 200
                                      (tagCallback (dom w (Suc k2)) P allPlayers
                                         selectionMarker),
                                    AwaitText ''Voting''], Returned, k3)))))"

text \<open>The role image of a roster entry as the Wolf's loop finds it: the last image that is
  no vote marker and no hand skin, cut after its last slash; the empty string when there is
  none.\<close>

definition nightRoleImage :: "string list \<Rightarrow> string" where
  "nightRoleImage urls =
    (case dropWhile (\<lambda>u. str_includes u ''vote_day'' \<or> str_includes u ''vote_werewolves'' \<or>
                         str_includes u ''hand-skin'') (rev urls) of
       [] \<Rightarrow> []
     | u # _ \<Rightarrow> fileName u)"

definition juniorIsTarget :: "snapshot \<Rightarrow> elem \<Rightarrow> bool" where
  "juniorIsTarget s playerElement =
    (let urls = imgSrcs s playerElement; roleImage = nightRoleImage urls in
     roleImage \<noteq> [] \<and> getPlayerRole (Some roleImage) = JuniorWerewolf \<and>
     list_ex (\<lambda>u. str_includes u ''vote_werewolves_voter'') urls)"

text \<open>The loop over the roster; \<open>clickOutermostElement(null)\<close> throws.\<close>

fun reclickLoop ::
  "snapshot \<Rightarrow> bool \<Rightarrow> elem option \<Rightarrow> elem list \<Rightarrow> action list \<times> outcome" where
  "reclickLoop s isPriestCoupled partnerElement [] = ([], Returned)"
| "reclickLoop s isPriestCoupled partnerElement (playerElement # rest) =
    (if juniorIsTarget s playerElement \<and> \<not> isPriestCoupled then
       (case partnerElement of
          None \<Rightarrow> ([], Threw)
        | Some p \<Rightarrow>
            (case reclickLoop s isPriestCoupled partnerElement rest of
               (as, oc) \<Rightarrow> (ClickOutermostElement p # as, oc)))
     else reclickLoop s isPriestCoupled partnerElement rest)"

definition nightWolf ::
  "world \<Rightarrow> PlayerInfo \<Rightarrow> elem option list \<Rightarrow> elem list \<Rightarrow> nat \<Rightarrow> run" where
  "nightWolf w P ce allPlayers k =
    (case waitForTextInDOM w ''25s'' 30000 (CancelText ''Continue'') k of
       None \<Rightarrow> None
     | Some (el1, k1) \<Rightarrow>
         if gameIsOver (dom w k1) \<or> findTextInDocument (dom w k1) ''Voting'' then
           Some ([AwaitText ''25s''], Returned, k1)
         else if noNightAction P then Some ([AwaitText ''25s''], Returned, k1)
         else
           (let isPriestCoupled = (coupleRole1 P = Some Priest \<or> coupleRole2 P = Some Priest);
                isPartnerAWolf = (\<not> is_wolf (coupleRole1 P));
                partnerNumber = (if isPartnerAWolf then coupleNumber1 P else coupleNumber2 P);
                partnerElement = (if isPartnerAWolf then nth_flat ce 0 else nth_flat ce 1);
                sent = sendMessageAndAct (dom w k1) P
                         (if isPriestCoupled then Some (render partnerNumber @ '' priest'')
                          else partnerNumber)
                         partnerElement
            in case waitForExactText w ''5s'' 30000 (CancelText ''Continue'') k1 of
                 None \<Rightarrow> None
               | Some (el2, k2) \<Rightarrow>
                   if gameIsOver (dom w k2) \<or> findTextInDocument (dom w k2) ''Voting'' then
                     Some ([AwaitText ''25s''] @ sent @ [AwaitExactText ''5s''], Returned, k2)
                   else
                     (case reclickLoop (dom w k2) isPriestCoupled partnerElement allPlayers of
                        (clicks, Threw) \<Rightarrow>
                          Some ([AwaitText ''25s''] @ sent @ [AwaitExactText ''5s''] @ clicks,
                                Threw, k2)
                      | (clicks, Returned) \<Rightarrow>
                          (case waitForTextInDOM w ''Voting'' 30000 (CancelText ''Continue'')
                                  k2 of
                             None \<Rightarrow> None
                           | Some (el3, k3) \<Rightarrow>
                               Some ([AwaitText ''25s''] @ sent @ [AwaitExactText ''5s''] @
                                     clicks @ [AwaitText ''Voting''], Returned, k3)))))"

definition inGameNight ::
  "world \<Rightarrow> PlayerInfo \<Rightarrow> elem option list \<Rightarrow> elem list \<Rightarrow> nat \<Rightarrow> run" where
  "inGameNight w P ce allPlayers k =
    (if gameIsOver (dom w k) then Some ([], Returned, k)
     else if role P = Wolf then nightWolf w P ce allPlayers k
     else if role P = JuniorWerewolf then
       handleWolfTagging w P ce allPlayers ''junior_werewolf_selection_marker'' k
     else if role P = SplitWolf then
       handleWolfTagging w P ce allPlayers ''splitwolf_bind'' k
     else Some ([], Returned, k))"

section \<open>In game\<close>

definition inGame :: "world \<Rightarrow> string \<Rightarrow> nat \<Rightarrow> run" where
  "inGame w myName k =
    (let s = dom w k in
     if isDay s then
       inGameDay w (playerInfo s myName) (coupleElements s myName) (myImageSets s myName)
         (allPlayerElements s) k
     else if isNight s then
       inGameNight w (playerInfo s myName) (coupleElements s myName) (allPlayerElements s) k
     else Some ([], Returned, k))"

section \<open>Main loop\<close>

datatype GameState =
  UNKNOWN | LOBBY | ROLE_SELECTION | IN_GAME | POST_GAME | CUSTOM | HOME_SCREEN | GAME_SCREEN

definition determineGameState :: "snapshot \<Rightarrow> GameState" where
  "determineGameState s =
    (let pageText = bodyInnerText s in
     if str_includes pageText ''Continue'' then POST_GAME
     else if (str_includes pageText ''Welcome to the werewolves chat.'' \<or>
              str_includes pageText ''Voting'') \<and> \<not> gameIsOver s then IN_GAME
     else if str_includes pageText ''SELECT A ROLE'' \<or>
             str_includes pageText ''Team: You belong to'' then ROLE_SELECTION
     else if str_includes pageText ''CREATE GAME'' then CUSTOM
     else if str_includes pageText ''CUSTOM GAME'' then GAME_SCREEN
     else if str_includes pageText ''INVENTORY'' then HOME_SCREEN
     else if str_includes pageText ''START GAME'' \<and> str_includes pageText ''INVITE'' then LOBBY
     else UNKNOWN)"

definition LOBBY_TIMEOUT :: int where
  "LOBBY_TIMEOUT = 2 * 60 * 1000"

text \<open>
  One cycle of \<open>main\<close>.  The state that outlives a cycle is \<open>lobbyEntryTimestamp\<close> (\<open>None\<close> for
  \<open>null\<close>); \<open>now\<close> is \<open>Date.now()\<close> and \<open>s\<close> the document of the cycle.  The handlers that the
  \<open>switch\<close> calls do not touch the timestamp; \<open>handlers\<close> gives the actions of the handler
  of a state.  The cycle returns the timestamp and its actions.
\<close>

definition main ::
  "(GameState \<Rightarrow> snapshot \<Rightarrow> action list) \<Rightarrow> int option \<Rightarrow> int \<Rightarrow> snapshot
    \<Rightarrow> int option \<times> action list" where
  "main handlers lobbyEntryTimestamp now s =
    (let currentState = determineGameState s in
     if currentState = LOBBY then
       (case lobbyEntryTimestamp of
          None \<Rightarrow> (Some now, handlers currentState s)
        | Some t \<Rightarrow>
            (let timeInLobby = now - t in
             if timeInLobby > LOBBY_TIMEOUT then (lobbyEntryTimestamp, [Reload])
             else (lobbyEntryTimestamp, handlers currentState s)))
     else (None, handlers currentState s))"

text \<open>The loop of \<open>startBot\<close> calls \<open>main\<close> again 1500 ms after a cycle has settled, also
  after a cycle that asked for a reload; a run is the list of the cycles' clock values and
  documents, and gives the last timestamp and the actions of each cycle.\<close>

fun loop ::
  "(GameState \<Rightarrow> snapshot \<Rightarrow> action list) \<Rightarrow> int option \<Rightarrow> (int \<times> snapshot) list
    \<Rightarrow> int option \<times> action list list" where
  "loop handlers ts [] = (ts, [])"
| "loop handlers ts ((now, s) # rest) =
    (case main handlers ts now s of
       (ts1, as) \<Rightarrow> (case loop handlers ts1 rest of (ts2, tr) \<Rightarrow> (ts2, as # tr)))"

section \<open>Reading a list of actions\<close>

text \<open>The thresholds that \<open>shooterAction\<close> printed and the thresholds it waited for, in
  order.\<close>

fun lookings :: "action list \<Rightarrow> int list" where
  "lookings [] = []"
| "lookings (LogLooking n # as) = n # lookings as"
| "lookings (a # as) = lookings as"

fun awaited :: "action list \<Rightarrow> int list" where
  "awaited [] = []"
| "awaited (AwaitImageCount img n # as) = n # awaited as"
| "awaited (a # as) = awaited as"

section \<open>Example documents\<close>

definition emptySnapshot :: snapshot where
  "emptySnapshot =
    \<lparr> bodyTextContent = [], bodyInnerText = [], divTexts = [], columnElements = [],
      bodyElements = [], documentImages = [], spans = [], textarea = None,
      textContent = (\<lambda>el. []), images = (\<lambda>el. []), src = (\<lambda>el. []),
      isVisible = (\<lambda>el. False), closestDiv = (\<lambda>el. None), closestEnabled = (\<lambda>el. None),
      rectArea = (\<lambda>el. 0) \<rparr>"


text \<open>A page that shows the continue prompt, and a world that stays on it while the clock
  advances by half a second per observation point.\<close>

definition continuePage :: snapshot where
  "continuePage = emptySnapshot \<lparr> bodyTextContent := ''Continue'', bodyInnerText := ''Continue'' \<rparr>"

definition slowWorld :: world where
  "slowWorld = \<lparr> dom = (\<lambda>i. continuePage), clock = (\<lambda>i. 500 * int i) \<rparr>"

definition calmWorld :: world where
  "calmWorld = \<lparr> dom = (\<lambda>i. emptySnapshot), clock = (\<lambda>i. 500 * int i) \<rparr>"


definition alwaysFound :: "snapshot \<Rightarrow> elem option" where
  "alwaysFound s = Some 7"

text \<open>A page with a chat input, and the same page with one chat line that names seat 3.\<close>

definition chatPage :: snapshot where
  "chatPage = emptySnapshot \<lparr> textarea := Some 5 \<rparr>"

definition mentionPage :: snapshot where
  "mentionPage = chatPage
    \<lparr> spans := [20],
      textContent := (\<lambda>el. if el = 20 then ''Bob:'' else if el = 21 then ''Bob: vote 3'' else []),
      closestDiv := (\<lambda>el. if el = 20 then Some 21 else None),
      rectArea := (\<lambda>el. 100) \<rparr>"

definition chatWorld :: world where
  "chatWorld = \<lparr> dom = (\<lambda>i. chatPage), clock = (\<lambda>i. 500 * int i) \<rparr>"

definition mentionWorld :: world where
  "mentionWorld = \<lparr> dom = (\<lambda>i. mentionPage), clock = (\<lambda>i. 500 * int i) \<rparr>"

definition soloWolf :: PlayerInfo where
  "soloWolf = \<lparr> name = ''Alice'', number = Some ''3'', role = Wolf,
     coupleNumber1 = None, coupleRole1 = None, coupleNumber2 = None, coupleRole2 = None \<rparr>"

text \<open>A villager paired with a Wolf in the first slot and a Priest in the second, and one
  paired with them the other way round.\<close>

definition wolfFirst :: PlayerInfo where
  "wolfFirst = \<lparr> name = ''Alice'', number = Some ''3'', role = Other,
     coupleNumber1 = Some ''4'', coupleRole1 = Some Wolf,
     coupleNumber2 = Some ''6'', coupleRole2 = Some Priest \<rparr>"

definition wolfSecond :: PlayerInfo where
  "wolfSecond = \<lparr> name = ''Alice'', number = Some ''3'', role = Other,
     coupleNumber1 = Some ''4'', coupleRole1 = Some Priest,
     coupleNumber2 = Some ''6'', coupleRole2 = Some Wolf \<rparr>"

text \<open>A roster in the voting phase: Alice is the operating player; Bob, a Priest, and
  Carol, a Werewolf, carry the pairing sticker.\<close>

definition wolfRoster :: snapshot where
  "wolfRoster = emptySnapshot
    \<lparr> divTexts := [''Voting 12s''],
      columnElements := [1, 2, 3],
      textContent := (\<lambda>el. if el = 1 then ''1 Alice'' else if el = 2 then ''2 Bob''
                          else if el = 3 then ''3 Carol'' else []),
      images := (\<lambda>el. if el = 2 then [11, 10] else if el = 3 then [13, 12] else []),
      src := (\<lambda>el. if el = 10 \<or> el = 12
                   then ''https://cdn.example/roles/cupid_select_lovers_sticker_small.png''
                   else if el = 11 then ''https://cdn.example/roles/priest.png''
                   else if el = 13 then ''https://cdn.example/roles/werewolf.png''
                   else []) \<rparr>"

definition rosterWorld :: world where
  "rosterWorld = \<lparr> dom = (\<lambda>i. wolfRoster), clock = (\<lambda>i. 500 * int i) \<rparr>"

text \<open>A page with a chat input after the game has ended.\<close>

definition victoryPage :: snapshot where
  "victoryPage = chatPage \<lparr> bodyTextContent := ''Victory'' \<rparr>"

definition victoryWorld :: world where
  "victoryWorld = \<lparr> dom = (\<lambda>i. victoryPage), clock = (\<lambda>i. 500 * int i) \<rparr>"

definition lobbyPage :: snapshot where
  "lobbyPage = emptySnapshot \<lparr> bodyInnerText := ''START GAME INVITE'' \<rparr>"

definition votingPage :: snapshot where
  "votingPage = emptySnapshot \<lparr> bodyInnerText := ''Voting'' \<rparr>"

definition noHandlers :: "GameState \<Rightarrow> snapshot \<Rightarrow> action list" where
  "noHandlers st s = []"

section \<open>Facts about strings\<close>

lemma startsWith_iff: "startsWith s k \<longleftrightarrow> (\<exists>q. s = k @ q)"
  by (induction s k rule: startsWith.induct) auto

lemma str_includes_iff: "str_includes s k \<longleftrightarrow> occurs_in k s"
proof (induction s)
  case Nil
  then show ?case by (auto simp: occurs_in_def)
next
  case (Cons c s)
  show ?case
  proof
    assume "str_includes (c # s) k"
    then consider "startsWith (c # s) k" | "str_includes s k" by auto
    then show "occurs_in k (c # s)"
    proof cases
      case 1
      then obtain q where "c # s = k @ q" by (auto simp: startsWith_iff)
      then have "c # s = [] @ k @ q" by simp
      then show ?thesis unfolding occurs_in_def by blast
    next
      case 2
      then obtain p q where "s = p @ k @ q" using Cons.IH by (auto simp: occurs_in_def)
      then have "c # s = (c # p) @ k @ q" by simp
      then show ?thesis unfolding occurs_in_def by blast
    qed
  next
    assume "occurs_in k (c # s)"
    then obtain p q where pq: "c # s = p @ k @ q" by (auto simp: occurs_in_def)
    show "str_includes (c # s) k"
    proof (cases p)
      case Nil
      then have "startsWith (c # s) k" using pq startsWith_iff by auto
      then show ?thesis by simp
    next
      case (Cons a p')
      then have "s = p' @ k @ q" using pq by simp
      then have "str_includes s k" using Cons.IH by (auto simp: occurs_in_def)
      then show ?thesis by simp
    qed
  qed
qed

section \<open>The role classifier\<close>

lemma roleLoop_first:
  "i < length m \<Longrightarrow> str_includes f (fst (m ! i)) \<Longrightarrow> \<forall>j<i. \<not> str_includes f (fst (m ! j))
    \<Longrightarrow> roleLoop m f = snd (m ! i)"
proof (induction m f arbitrary: i rule: roleLoop.induct)
  case (1 f)
  then show ?case by simp
next
  case (2 key r m f)
  show ?case
  proof (cases i)
    case 0
    then show ?thesis using "2.prems" by simp
  next
    case (Suc n)
    have nokey: "\<not> str_includes f key" using "2.prems"(3) Suc by fastforce
    have "\<forall>j<n. \<not> str_includes f (fst (m ! j))"
    proof (intro allI impI)
      fix j assume "j < n"
      then have "Suc j < i" using Suc by simp
      then have "\<not> str_includes f (fst (((key, r) # m) ! Suc j))" using "2.prems"(3) by blast
      then show "\<not> str_includes f (fst (m ! j))" by simp
    qed
    then have "roleLoop m f = snd (m ! n)"
      using "2.IH"[of n] nokey "2.prems" Suc by simp
    then show ?thesis using nokey Suc by simp
  qed
qed

lemma roleLoop_none:
  "\<forall>j<length m. \<not> str_includes f (fst (m ! j)) \<Longrightarrow> roleLoop m f = Other"
proof (induction m f rule: roleLoop.induct)
  case (1 f)
  then show ?case by simp
next
  case (2 key r m f)
  have "\<not> str_includes f key" using "2.prems" by fastforce
  moreover have "\<forall>j<length m. \<not> str_includes f (fst (m ! j))"
  proof (intro allI impI)
    fix j assume "j < length m"
    then have "Suc j < length ((key, r) # m)" by simp
    then have "\<not> str_includes f (fst (((key, r) # m) ! Suc j))" using "2.prems" by blast
    then show "\<not> str_includes f (fst (m ! j))" by simp
  qed
  ultimately show ?case using "2.IH" by simp
qed

lemma roleLoop_range: "roleLoop m f \<in> insert Other (snd ` set m)"
  by (induction m f rule: roleLoop.induct) auto

lemma roleLoop_roleMap_known: "roleLoop roleMap f \<noteq> Unknown"
proof -
  have "roleLoop roleMap f \<in> insert Other (snd ` set roleMap)" by (rule roleLoop_range)
  then show ?thesis by (auto simp: roleMap_def)
qed

text \<open>
  C7.  \<open>getPlayerRole\<close> is a function of the icon file name alone.  Its table has the keys
  juniorwerewolf, junior_werewolf, split_wolf, splitwolf, wolf, priest, vigilante, gunner in
  this order.  For a file name that is present and not empty the result is the role of the
  first key, in that order, that occurs as a substring of the name, and \<open>Other\<close> when no key
  occurs; the result is \<open>Unknown\<close> exactly when the name is missing or empty.
\<close>

theorem C7_getPlayerRole_first_key:
  "map fst roleMap = [''juniorwerewolf'', ''junior_werewolf'', ''split_wolf'', ''splitwolf'',
      ''wolf'', ''priest'', ''vigilante'', ''gunner'']
   \<and> map snd roleMap = [JuniorWerewolf, JuniorWerewolf, SplitWolf, SplitWolf,
      Wolf, Priest, Shooter, Shooter]
   \<and> (getPlayerRole x = Unknown \<longleftrightarrow> x = None \<or> x = Some [])
   \<and> (\<forall>f i. f \<noteq> [] \<and> i < length roleMap \<and> occurs_in (fst (roleMap ! i)) f
          \<and> (\<forall>j<i. \<not> occurs_in (fst (roleMap ! j)) f)
        \<longrightarrow> getPlayerRole (Some f) = snd (roleMap ! i))
   \<and> (\<forall>f. f \<noteq> [] \<and> (\<forall>j<length roleMap. \<not> occurs_in (fst (roleMap ! j)) f)
        \<longrightarrow> getPlayerRole (Some f) = Other)"
proof (intro conjI allI impI)
  show "map fst roleMap = [''juniorwerewolf'', ''junior_werewolf'', ''split_wolf'',
      ''splitwolf'', ''wolf'', ''priest'', ''vigilante'', ''gunner'']"
    by (simp add: roleMap_def)
  show "map snd roleMap = [JuniorWerewolf, JuniorWerewolf, SplitWolf, SplitWolf,
      Wolf, Priest, Shooter, Shooter]"
    by (simp add: roleMap_def)
  show "getPlayerRole x = Unknown \<longleftrightarrow> x = None \<or> x = Some []"
    using roleLoop_roleMap_known by (cases x) (auto simp: getPlayerRole_def)
next
  fix f i
  assume a: "f \<noteq> [] \<and> i < length roleMap \<and> occurs_in (fst (roleMap ! i)) f
      \<and> (\<forall>j<i. \<not> occurs_in (fst (roleMap ! j)) f)"
  then have "roleLoop roleMap f = snd (roleMap ! i)"
    by (intro roleLoop_first) (auto simp: str_includes_iff)
  then show "getPlayerRole (Some f) = snd (roleMap ! i)"
    using a by (simp add: getPlayerRole_def)
next
  fix f
  assume a: "f \<noteq> [] \<and> (\<forall>j<length roleMap. \<not> occurs_in (fst (roleMap ! j)) f)"
  then have "roleLoop roleMap f = Other"
    by (intro roleLoop_none) (auto simp: str_includes_iff)
  then show "getPlayerRole (Some f) = Other"
    using a by (simp add: getPlayerRole_def)
qed

theorem C7_getPlayerRole_first_key_witness:
  "getPlayerRole (Some ''junior_werewolf.png'') = JuniorWerewolf
   \<and> getPlayerRole (Some ''villager.png'') = Other"
proof -
  let ?f = "''junior_werewolf.png''"
  have k: "roleMap ! 1 = (''junior_werewolf'', JuniorWerewolf)"
    by (simp add: roleMap_def)
  have k0: "roleMap ! 0 = (''juniorwerewolf'', JuniorWerewolf)"
    by (simp add: roleMap_def)
  have h1: "?f \<noteq> [] \<and> 1 < length roleMap \<and> occurs_in (fst (roleMap ! 1)) ?f
      \<and> (\<forall>j<1. \<not> occurs_in (fst (roleMap ! j)) ?f)"
    unfolding str_includes_iff [symmetric] k using k0 by (simp add: roleMap_def)
  have h2: "''villager.png'' \<noteq> []
      \<and> (\<forall>j<length roleMap. \<not> occurs_in (fst (roleMap ! j)) ''villager.png'')"
  proof (intro conjI allI impI)
    fix j assume j: "j < length roleMap"
    have "\<forall>p\<in>set roleMap. \<not> str_includes ''villager.png'' (fst p)"
      by (simp add: roleMap_def)
    then have "\<not> str_includes ''villager.png'' (fst (roleMap ! j))"
      using j nth_mem by blast
    then show "\<not> occurs_in (fst (roleMap ! j)) ''villager.png''"
      by (simp add: str_includes_iff)
  qed simp
  note c7 = C7_getPlayerRole_first_key [of None]
  have r1: "getPlayerRole (Some ?f) = snd (roleMap ! 1)"
    by (rule c7 [THEN conjunct2, THEN conjunct2, THEN conjunct2, THEN conjunct1,
          rule_format, OF h1])
  have r2: "getPlayerRole (Some ''villager.png'') = Other"
    by (rule c7 [THEN conjunct2, THEN conjunct2, THEN conjunct2, THEN conjunct2,
          rule_format, OF h2])
  show ?thesis using r1 r2 k by simp
qed

section \<open>Phase detection\<close>

lemma matchTimer_voting: "matchTimer ''Voting 12s'' = Some ''Voting''"
  by (simp add: matchTimer_def is_digit_def is_space_def)

lemma matchTimer_night: "matchTimer ''5s'' = Some []"
  by (simp add: matchTimer_def is_digit_def is_space_def)

lemma matchTimer_three_digits: "matchTimer ''123s'' = Some ''1''"
  by (simp add: matchTimer_def is_digit_def is_space_def)

lemma matchTimer_no_timer: "matchTimer ''Voting'' = None"
  by (simp add: matchTimer_def is_digit_def is_space_def)

text \<open>
  C8.  \<open>isDay\<close> holds exactly when the extracted timer label is \<open>Discussion\<close> or \<open>Voting\<close>,
  \<open>isNight\<close> exactly when it is the empty string; both fail on any other label and on a
  missing label, and no document makes both hold.
\<close>

theorem C8_isDay_isNight:
  "(isDay s \<longleftrightarrow> getLabelBeforeTime s = Some ''Discussion'' \<or> getLabelBeforeTime s = Some ''Voting'')
   \<and> (isNight s \<longleftrightarrow> getLabelBeforeTime s = Some [])
   \<and> (getLabelBeforeTime s \<noteq> Some ''Discussion'' \<and> getLabelBeforeTime s \<noteq> Some ''Voting''
        \<longrightarrow> \<not> isDay s)
   \<and> (getLabelBeforeTime s \<noteq> Some [] \<longrightarrow> \<not> isNight s)
   \<and> (getLabelBeforeTime s = None \<longrightarrow> \<not> isDay s \<and> \<not> isNight s)
   \<and> \<not> (isDay s \<and> isNight s)"
  by (auto simp: isDay_def isNight_def Let_def)

theorem C8_isDay_isNight_witness:
  "getLabelBeforeTime emptySnapshot = None
   \<and> \<not> isDay emptySnapshot \<and> \<not> isNight emptySnapshot
   \<and> getLabelBeforeTime (emptySnapshot \<lparr> divTexts := [''Voting 12s''] \<rparr>) = Some ''Voting''
   \<and> isDay (emptySnapshot \<lparr> divTexts := [''Voting 12s''] \<rparr>)
   \<and> \<not> isNight (emptySnapshot \<lparr> divTexts := [''Voting 12s''] \<rparr>)"
proof -
  have a: "getLabelBeforeTime emptySnapshot = None"
    by (simp add: getLabelBeforeTime_def emptySnapshot_def)
  have b: "getLabelBeforeTime (emptySnapshot \<lparr> divTexts := [''Voting 12s''] \<rparr>) = Some ''Voting''"
    by (simp add: getLabelBeforeTime_def matchTimer_voting trim_def is_space_def)
  have c: "getLabelBeforeTime (emptySnapshot \<lparr> divTexts := [''Voting 12s''] \<rparr>) \<noteq> Some []"
    using b by simp
  show ?thesis
    using C8_isDay_isNight [of emptySnapshot]
      C8_isDay_isNight [of "emptySnapshot \<lparr> divTexts := [''Voting 12s''] \<rparr>"] a b c
    by simp
qed

section \<open>The extracted record\<close>




lemma nth_flat_couple:
  "nth_flat (coupleElements s n) i = nth_opt (otherLovers s n) i" if "i < 2"
proof (cases "i < length (otherLovers s n)")
  case True
  then show ?thesis
    by (simp add: coupleElements_def nth_flat_def nth_opt_def Let_def nth_append)
next
  case False
  then show ?thesis using that
    by (auto simp: coupleElements_def nth_flat_def nth_opt_def Let_def nth_append)
qed



lemma coupleRole_slot:
  "getRoleFromImage (nth_flat (extractRoleImage (coupleImageSets s n)) i) = None
    \<longleftrightarrow> (case nth_opt (otherLovers s n) i of
           None \<Rightarrow> True
         | Some el \<Rightarrow> roleImageOf (map fileName (imgSrcs s el)) \<in> {None, Some []})"
  by (auto simp: getRoleFromImage_def nth_flat_def nth_opt_def extractRoleImage_def
      coupleImageSets_def getPlayerImageFilenames_def split: option.splits)





section \<open>The wait\<close>

lemma check_skip:
  assumes "k \<le> j"
    and "\<forall>i. k \<le> i \<and> i < j \<longrightarrow> c (dom w i) = None \<and> \<not> cancelled cs (dom w i)
            \<and> clock w i - clock w st < T"
  shows "check w c T cs st k = check w c T cs st j"
  using assms
proof (induction "j - k" arbitrary: k)
  case 0
  then show ?case by simp
next
  case (Suc n)
  then have kj: "k < j" by simp
  then have here: "c (dom w k) = None" "\<not> cancelled cs (dom w k)" "clock w k - clock w st < T"
    using Suc.prems(2) by auto
  have "check w c T cs st k = check w c T cs st (Suc k)"
    by (subst check.simps) (use here in simp)
  also have "\<dots> = check w c T cs st j"
    using Suc.hyps(1)[of "Suc k"] Suc.hyps(2) Suc.prems kj by auto
  finally show ?case .
qed

lemma check_sound_aux:
  "check w c T cs st k = Some y \<Longrightarrow>
    k \<le> snd y
    \<and> (\<forall>i. k \<le> i \<and> i < snd y \<longrightarrow> c (dom w i) = None \<and> \<not> cancelled cs (dom w i)
            \<and> clock w i - clock w st < T)
    \<and> c (dom w (snd y)) = fst y
    \<and> (fst y = None \<longrightarrow> cancelled cs (dom w (snd y)) \<or> T \<le> clock w (snd y) - clock w st)"
proof (induction rule: check.raw_induct[rotated 1, consumes 1])
  case (1 chk w c T cs st i y)
  show ?case
  proof (cases "c (dom w i)")
    case (Some v)
    have body: "(case c (dom w i) of
        None \<Rightarrow> if cancelled cs (dom w i) then Some (None, i)
                else if T \<le> clock w i - clock w st then Some (None, i)
                else chk w c T cs st (Suc i)
      | Some result \<Rightarrow> Some (Some result, i)) = Some y" by (rule 1(2))
    then have "y = (Some v, i)" using Some by simp
    then show ?thesis using Some by auto
  next
    case None
    have body: "(case c (dom w i) of
        None \<Rightarrow> if cancelled cs (dom w i) then Some (None, i)
                else if T \<le> clock w i - clock w st then Some (None, i)
                else chk w c T cs st (Suc i)
      | Some result \<Rightarrow> Some (Some result, i)) = Some y" by (rule 1(2))
    show ?thesis
    proof (cases "cancelled cs (dom w i) \<or> T \<le> clock w i - clock w st")
      case True
      then have "y = (None, i)" using body None by (simp split: if_splits)
      then show ?thesis using None True by auto
    next
      case False
      then have "chk w c T cs st (Suc i) = Some y" using body None by simp
      from 1(1)[OF this] have ih: "Suc i \<le> snd y"
        "\<forall>i'. Suc i \<le> i' \<and> i' < snd y \<longrightarrow> c (dom w i') = None \<and> \<not> cancelled cs (dom w i')
            \<and> clock w i' - clock w st < T"
        "c (dom w (snd y)) = fst y"
        "fst y = None \<longrightarrow> cancelled cs (dom w (snd y)) \<or> T \<le> clock w (snd y) - clock w st"
        by auto
      have "\<forall>i'. i \<le> i' \<and> i' < snd y \<longrightarrow> c (dom w i') = None \<and> \<not> cancelled cs (dom w i')
            \<and> clock w i' - clock w st < T"
      proof (intro allI impI)
        fix i' assume a: "i \<le> i' \<and> i' < snd y"
        show "c (dom w i') = None \<and> \<not> cancelled cs (dom w i') \<and> clock w i' - clock w st < T"
        proof (cases "i' = i")
          case True
          then show ?thesis using None False by auto
        next
          case False
          then have "Suc i \<le> i'" using a by simp
          then show ?thesis using ih(2) a by blast
        qed
      qed
      then show ?thesis using ih by simp
    qed
  qed
qed

lemma check_sound:
  "check w c T cs st k = Some (r, j) \<Longrightarrow>
    k \<le> j
    \<and> (\<forall>i. k \<le> i \<and> i < j \<longrightarrow> c (dom w i) = None \<and> \<not> cancelled cs (dom w i)
            \<and> clock w i - clock w st < T)
    \<and> c (dom w j) = r
    \<and> (r = None \<longrightarrow> cancelled cs (dom w j) \<or> T \<le> clock w j - clock w st)"
  using check_sound_aux [of w c T cs st k "(r, j)"] by simp

lemma check_stop_null:
  "c (dom w j) = None \<Longrightarrow> cancelled cs (dom w j) \<or> T \<le> clock w j - clock w st
    \<Longrightarrow> check w c T cs st j = Some (None, j)"
  by (subst check.simps) auto

lemma check_stop_result:
  "c (dom w j) = Some r \<Longrightarrow> check w c T cs st j = Some (Some r, j)"
  by (subst check.simps) auto

lemma check1_skip:
  assumes "k \<le> j"
    and "\<forall>i. k \<le> i \<and> i < j \<longrightarrow> c (dom w i) = None \<and> \<not> cancelled1 cs (dom w i)
            \<and> clock w i - clock w st < T"
  shows "check1 w c T cs st k = check1 w c T cs st j"
  using assms
proof (induction "j - k" arbitrary: k)
  case 0
  then show ?case by simp
next
  case (Suc n)
  then have kj: "k < j" by simp
  then have here: "c (dom w k) = None" "\<not> cancelled1 cs (dom w k)" "clock w k - clock w st < T"
    using Suc.prems(2) by auto
  have "check1 w c T cs st k = check1 w c T cs st (Suc k)"
    by (subst check1.simps) (use here in simp)
  also have "\<dots> = check1 w c T cs st j"
    using Suc.hyps(1)[of "Suc k"] Suc.hyps(2) Suc.prems kj by auto
  finally show ?case .
qed

lemma check1_sound_aux:
  "check1 w c T cs st k = Some y \<Longrightarrow>
    k \<le> snd y
    \<and> (\<forall>i. k \<le> i \<and> i < snd y \<longrightarrow> c (dom w i) = None \<and> \<not> cancelled1 cs (dom w i)
            \<and> clock w i - clock w st < T)
    \<and> c (dom w (snd y)) = fst y
    \<and> (fst y = None \<longrightarrow> cancelled1 cs (dom w (snd y)) \<or> T \<le> clock w (snd y) - clock w st)"
proof (induction rule: check1.raw_induct[rotated 1, consumes 1])
  case (1 chk w c T cs st i y)
  show ?case
  proof (cases "c (dom w i)")
    case (Some v)
    have body: "(case c (dom w i) of
        None \<Rightarrow> if cancelled1 cs (dom w i) then Some (None, i)
                else if T \<le> clock w i - clock w st then Some (None, i)
                else chk w c T cs st (Suc i)
      | Some result \<Rightarrow> Some (Some result, i)) = Some y" by (rule 1(2))
    then have "y = (Some v, i)" using Some by simp
    then show ?thesis using Some by auto
  next
    case None
    have body: "(case c (dom w i) of
        None \<Rightarrow> if cancelled1 cs (dom w i) then Some (None, i)
                else if T \<le> clock w i - clock w st then Some (None, i)
                else chk w c T cs st (Suc i)
      | Some result \<Rightarrow> Some (Some result, i)) = Some y" by (rule 1(2))
    show ?thesis
    proof (cases "cancelled1 cs (dom w i) \<or> T \<le> clock w i - clock w st")
      case True
      then have "y = (None, i)" using body None by (simp split: if_splits)
      then show ?thesis using None True by auto
    next
      case False
      then have "chk w c T cs st (Suc i) = Some y" using body None by simp
      from 1(1)[OF this] have ih: "Suc i \<le> snd y"
        "\<forall>i'. Suc i \<le> i' \<and> i' < snd y \<longrightarrow> c (dom w i') = None \<and> \<not> cancelled1 cs (dom w i')
            \<and> clock w i' - clock w st < T"
        "c (dom w (snd y)) = fst y"
        "fst y = None \<longrightarrow> cancelled1 cs (dom w (snd y)) \<or> T \<le> clock w (snd y) - clock w st"
        by auto
      have "\<forall>i'. i \<le> i' \<and> i' < snd y \<longrightarrow> c (dom w i') = None \<and> \<not> cancelled1 cs (dom w i')
            \<and> clock w i' - clock w st < T"
      proof (intro allI impI)
        fix i' assume a: "i \<le> i' \<and> i' < snd y"
        show "c (dom w i') = None \<and> \<not> cancelled1 cs (dom w i') \<and> clock w i' - clock w st < T"
        proof (cases "i' = i")
          case True
          then show ?thesis using None False by auto
        next
          case False
          then have "Suc i \<le> i'" using a by simp
          then show ?thesis using ih(2) a by blast
        qed
      qed
      then show ?thesis using ih by simp
    qed
  qed
qed

lemma check1_sound:
  "check1 w c T cs st k = Some (r, j) \<Longrightarrow>
    k \<le> j
    \<and> (\<forall>i. k \<le> i \<and> i < j \<longrightarrow> c (dom w i) = None \<and> \<not> cancelled1 cs (dom w i)
            \<and> clock w i - clock w st < T)
    \<and> c (dom w j) = r
    \<and> (r = None \<longrightarrow> cancelled1 cs (dom w j) \<or> T \<le> clock w j - clock w st)"
  using check1_sound_aux [of w c T cs st k "(r, j)"] by simp

lemma check1_stop_null:
  "c (dom w j) = None \<Longrightarrow> cancelled1 cs (dom w j) \<or> T \<le> clock w j - clock w st
    \<Longrightarrow> check1 w c T cs st j = Some (None, j)"
  by (subst check1.simps) auto

lemma check1_stop_result:
  "c (dom w j) = Some r \<Longrightarrow> check1 w c T cs st j = Some (Some r, j)"
  by (subst check1.simps) auto

lemma cancelled_iff:
  "cancelled cs s \<longleftrightarrow> (\<exists>t. find (\<lambda>t. occurs_in t (bodyInnerText s)) cs = Some t \<and> t \<noteq> [])"
  by (auto simp: cancelled_def str_includes_iff split: option.splits)

lemma cancelled_nonempty:
  "\<forall>t\<in>set cs. t \<noteq> [] \<Longrightarrow> cancelled cs s \<longleftrightarrow> (\<exists>t\<in>set cs. occurs_in t (bodyInnerText s))"
  by (auto simp: cancelled_def str_includes_iff find_None_iff find_Some_iff split: option.splits)


lemma cancelled1_iff:
  "cancelled1 ct s \<longleftrightarrow> (\<exists>t. ct = Some t \<and> t \<noteq> [] \<and> occurs_in t (bodyInnerText s))"
  by (auto simp: cancelled1_def str_includes_iff split: option.splits)

lemma check_total:
  assumes "i \<le> j" and "T \<le> clock w j - clock w st"
  shows "\<exists>y. check w c T cs st i = Some y"
  using assms
proof (induction "j - i" arbitrary: i)
  case 0
  then have "i = j" by simp
  then show ?case using 0 by (subst check.simps) (simp split: option.splits)
next
  case (Suc n)
  then have "\<exists>y. check w c T cs st (Suc i) = Some y" by simp
  then show ?case by (subst check.simps) (simp split: option.splits)
qed

lemma check1_total:
  assumes "i \<le> j" and "T \<le> clock w j - clock w st"
  shows "\<exists>y. check1 w c T cs st i = Some y"
  using assms
proof (induction "j - i" arbitrary: i)
  case 0
  then have "i = j" by simp
  then show ?case using 0 by (subst check1.simps) (simp split: option.splits)
next
  case (Suc n)
  then have "\<exists>y. check1 w c T cs st (Suc i) = Some y" by simp
  then show ?case by (subst check1.simps) (simp split: option.splits)
qed

text \<open>
  The wait with a condition that is never met.  It resolves to \<open>null\<close> and to nothing else,
  at the first observation point at which it is cancelled or the timeout has elapsed; it
  has no branch that throws.  With cancel texts that are all non-empty, it is cancelled at
  a point exactly when the page text of that point includes one of them.  When it resolves
  at a point where it is not cancelled, the timeout has elapsed.  When the clock reaches
  the timeout at some point, the wait resolves.  The earlier revision, with its single
  cancel text, behaves the same; there an empty cancel text is no cancel text.
\<close>

lemma wait_never_true_resolves:
  "(cancelled (cancelTextsOf cc) (dom w k) \<longrightarrow>
      waitForCondition w (\<lambda>s. None :: 'a option) T I cc k = Some (None, k))
   \<and> (k \<le> j
        \<and> (\<forall>i. k \<le> i \<and> i < j \<longrightarrow>
              \<not> cancelled (cancelTextsOf cc) (dom w i) \<and> clock w i - clock w k < T)
        \<and> (cancelled (cancelTextsOf cc) (dom w j) \<or> T \<le> clock w j - clock w k)
      \<longrightarrow> waitForCondition w (\<lambda>s. None :: 'a option) T I cc k = Some (None, j))
   \<and> (waitForCondition w (\<lambda>s. None :: 'a option) T I cc k = Some (r, j) \<longrightarrow>
        r = None \<and> k \<le> j
        \<and> (cancelled (cancelTextsOf cc) (dom w j) \<or> T \<le> clock w j - clock w k)
        \<and> (\<forall>i. k \<le> i \<and> i < j \<longrightarrow>
              \<not> cancelled (cancelTextsOf cc) (dom w i) \<and> clock w i - clock w k < T))
   \<and> ((\<exists>j\<ge>k. T \<le> clock w j - clock w k) \<longrightarrow>
        (\<exists>j. waitForCondition w (\<lambda>s. None :: 'a option) T I cc k = Some (None, j)))
   \<and> ((\<forall>t\<in>set cs. t \<noteq> []) \<longrightarrow>
        (cancelled cs s \<longleftrightarrow> (\<exists>t\<in>set cs. occurs_in t (bodyInnerText s))))
   \<and> (cancelled1 ct (dom w k) \<longrightarrow>
        waitForCondition1 w (\<lambda>s. None :: 'a option) T I ct k = Some (None, k))
   \<and> (k \<le> j
        \<and> (\<forall>i. k \<le> i \<and> i < j \<longrightarrow>
              \<not> cancelled1 ct (dom w i) \<and> clock w i - clock w k < T)
        \<and> (cancelled1 ct (dom w j) \<or> T \<le> clock w j - clock w k)
      \<longrightarrow> waitForCondition1 w (\<lambda>s. None :: 'a option) T I ct k = Some (None, j))
   \<and> (waitForCondition1 w (\<lambda>s. None :: 'a option) T I ct k = Some (r, j) \<longrightarrow>
        r = None \<and> k \<le> j
        \<and> (cancelled1 ct (dom w j) \<or> T \<le> clock w j - clock w k)
        \<and> (\<forall>i. k \<le> i \<and> i < j \<longrightarrow>
              \<not> cancelled1 ct (dom w i) \<and> clock w i - clock w k < T))
   \<and> ((\<exists>j\<ge>k. T \<le> clock w j - clock w k) \<longrightarrow>
        (\<exists>j. waitForCondition1 w (\<lambda>s. None :: 'a option) T I ct k = Some (None, j)))
   \<and> (cancelled1 ct s \<longleftrightarrow>
        (\<exists>t. ct = Some t \<and> t \<noteq> [] \<and> occurs_in t (bodyInnerText s)))"
proof -
  let ?cs = "cancelTextsOf cc"
  let ?c = "\<lambda>s::snapshot. None :: 'a option"
  have a1: "cancelled ?cs (dom w k) \<longrightarrow> waitForCondition w ?c T I cc k = Some (None, k)"
    by (simp add: waitForCondition_def check_stop_null)
  have a2: "k \<le> j
        \<and> (\<forall>i. k \<le> i \<and> i < j \<longrightarrow> \<not> cancelled ?cs (dom w i) \<and> clock w i - clock w k < T)
        \<and> (cancelled ?cs (dom w j) \<or> T \<le> clock w j - clock w k)
      \<longrightarrow> waitForCondition w ?c T I cc k = Some (None, j)"
  proof
    assume h: "k \<le> j
        \<and> (\<forall>i. k \<le> i \<and> i < j \<longrightarrow> \<not> cancelled ?cs (dom w i) \<and> clock w i - clock w k < T)
        \<and> (cancelled ?cs (dom w j) \<or> T \<le> clock w j - clock w k)"
    then have "check w ?c T ?cs k k = check w ?c T ?cs k j"
      by (intro check_skip) auto
    also have "\<dots> = Some (None, j)" using h by (intro check_stop_null) auto
    finally show "waitForCondition w ?c T I cc k = Some (None, j)"
      by (simp add: waitForCondition_def)
  qed
  have a3: "waitForCondition w ?c T I cc k = Some (r, j) \<longrightarrow>
        r = None \<and> k \<le> j
        \<and> (cancelled ?cs (dom w j) \<or> T \<le> clock w j - clock w k)
        \<and> (\<forall>i. k \<le> i \<and> i < j \<longrightarrow> \<not> cancelled ?cs (dom w i) \<and> clock w i - clock w k < T)"
    using check_sound [of w ?c T ?cs k k r j] by (auto simp: waitForCondition_def)
  have a4: "(\<exists>j\<ge>k. T \<le> clock w j - clock w k) \<longrightarrow>
        (\<exists>j. waitForCondition w ?c T I cc k = Some (None, j))"
  proof
    assume "\<exists>j\<ge>k. T \<le> clock w j - clock w k"
    then obtain j where "k \<le> j" "T \<le> clock w j - clock w k" by blast
    then obtain y where y: "check w ?c T ?cs k k = Some y" using check_total by blast
    obtain r i where "y = (r, i)" by (cases y)
    then have "check w ?c T ?cs k k = Some (r, i)" using y by simp
    moreover from this have "r = None" using check_sound [of w ?c T ?cs k k r i] by simp
    ultimately show "\<exists>j. waitForCondition w ?c T I cc k = Some (None, j)"
      by (auto simp: waitForCondition_def)
  qed
  have b1: "cancelled1 ct (dom w k) \<longrightarrow> waitForCondition1 w ?c T I ct k = Some (None, k)"
    by (simp add: waitForCondition1_def check1_stop_null)
  have b2: "k \<le> j
        \<and> (\<forall>i. k \<le> i \<and> i < j \<longrightarrow> \<not> cancelled1 ct (dom w i) \<and> clock w i - clock w k < T)
        \<and> (cancelled1 ct (dom w j) \<or> T \<le> clock w j - clock w k)
      \<longrightarrow> waitForCondition1 w ?c T I ct k = Some (None, j)"
  proof
    assume h: "k \<le> j
        \<and> (\<forall>i. k \<le> i \<and> i < j \<longrightarrow> \<not> cancelled1 ct (dom w i) \<and> clock w i - clock w k < T)
        \<and> (cancelled1 ct (dom w j) \<or> T \<le> clock w j - clock w k)"
    then have "check1 w ?c T ct k k = check1 w ?c T ct k j"
      by (intro check1_skip) auto
    also have "\<dots> = Some (None, j)" using h by (intro check1_stop_null) auto
    finally show "waitForCondition1 w ?c T I ct k = Some (None, j)"
      by (simp add: waitForCondition1_def)
  qed
  have b3: "waitForCondition1 w ?c T I ct k = Some (r, j) \<longrightarrow>
        r = None \<and> k \<le> j
        \<and> (cancelled1 ct (dom w j) \<or> T \<le> clock w j - clock w k)
        \<and> (\<forall>i. k \<le> i \<and> i < j \<longrightarrow> \<not> cancelled1 ct (dom w i) \<and> clock w i - clock w k < T)"
    using check1_sound [of w ?c T ct k k r j] by (auto simp: waitForCondition1_def)
  have b4: "(\<exists>j\<ge>k. T \<le> clock w j - clock w k) \<longrightarrow>
        (\<exists>j. waitForCondition1 w ?c T I ct k = Some (None, j))"
  proof
    assume "\<exists>j\<ge>k. T \<le> clock w j - clock w k"
    then obtain j where "k \<le> j" "T \<le> clock w j - clock w k" by blast
    then obtain y where y: "check1 w ?c T ct k k = Some y" using check1_total by blast
    obtain r i where "y = (r, i)" by (cases y)
    then have "check1 w ?c T ct k k = Some (r, i)" using y by simp
    moreover from this have "r = None" using check1_sound [of w ?c T ct k k r i] by simp
    ultimately show "\<exists>j. waitForCondition1 w ?c T I ct k = Some (None, j)"
      by (auto simp: waitForCondition1_def)
  qed
  show ?thesis
    using a1 a2 a3 a4 b1 b2 b3 b4 cancelled_nonempty [of cs s] cancelled1_iff [of ct s]
    by blast
qed

lemma slowWorld_cancelled: "cancelled (cancelTextsOf (CancelText ''Continue'')) (dom slowWorld 0)"
  by (simp add: cancelled_def cancelTextsOf_def slowWorld_def continuePage_def emptySnapshot_def)

lemma slowWorld_cancelled1: "cancelled1 (Some ''Continue'') (dom slowWorld 0)"
  by (simp add: cancelled1_def slowWorld_def continuePage_def emptySnapshot_def)

lemma calmWorld_quiet:
  "(0::nat) \<le> 2
    \<and> (\<forall>i. 0 \<le> i \<and> i < 2 \<longrightarrow>
          \<not> cancelled (cancelTextsOf NoCancel) (dom calmWorld i)
          \<and> clock calmWorld i - clock calmWorld 0 < 1000)
    \<and> (cancelled (cancelTextsOf NoCancel) (dom calmWorld 2)
        \<or> 1000 \<le> clock calmWorld 2 - clock calmWorld 0)"
  by (auto simp: cancelled_def cancelTextsOf_def calmWorld_def)

lemma calmWorld_quiet1:
  "(0::nat) \<le> 2
    \<and> (\<forall>i. 0 \<le> i \<and> i < 2 \<longrightarrow>
          \<not> cancelled1 None (dom calmWorld i)
          \<and> clock calmWorld i - clock calmWorld 0 < 1000)
    \<and> (cancelled1 None (dom calmWorld 2)
        \<or> 1000 \<le> clock calmWorld 2 - clock calmWorld 0)"
  by (auto simp: cancelled1_def calmWorld_def)

lemma wait_never_true_examples:
  "waitForCondition slowWorld (\<lambda>s. None :: elem option) 1000 200 (CancelText ''Continue'') 0
      = Some (None, 0)
   \<and> waitForCondition calmWorld (\<lambda>s. None :: elem option) 1000 200 NoCancel 0 = Some (None, 2)
   \<and> waitForCondition1 slowWorld (\<lambda>s. None :: elem option) 1000 200 (Some ''Continue'') 0
      = Some (None, 0)
   \<and> waitForCondition1 calmWorld (\<lambda>s. None :: elem option) 1000 200 None 0 = Some (None, 2)"
proof -
  note slow = wait_never_true_resolves [where 'a = elem and w = slowWorld and k = 0
      and cc = "CancelText ''Continue''" and ct = "Some ''Continue''" and T = 1000 and I = 200]
  note calm = wait_never_true_resolves [where 'a = elem and w = calmWorld and k = 0 and j = 2
      and cc = NoCancel and ct = None and T = 1000 and I = 200]
  have 1: "waitForCondition slowWorld (\<lambda>s. None :: elem option) 1000 200
      (CancelText ''Continue'') 0 = Some (None, 0)"
    using slow slowWorld_cancelled by blast
  have 2: "waitForCondition calmWorld (\<lambda>s. None :: elem option) 1000 200 NoCancel 0
      = Some (None, 2)"
    using calm calmWorld_quiet by blast
  have 3: "waitForCondition1 slowWorld (\<lambda>s. None :: elem option) 1000 200
      (Some ''Continue'') 0 = Some (None, 0)"
    using slow slowWorld_cancelled1 by blast
  have 4: "waitForCondition1 calmWorld (\<lambda>s. None :: elem option) 1000 200 None 0
      = Some (None, 2)"
    using calm calmWorld_quiet1 by blast
  show ?thesis using 1 2 3 4 by simp
qed


text \<open>
  C10.  On every poll the condition is evaluated before the cancel texts are looked for and
  before the timeout is tested: at the first observation point at which the condition
  returns a truthy result the wait resolves with that result, whether or not a cancel text
  is in the page text at that point; a wait that resolves to \<open>null\<close> does so at a point where
  the condition returned nothing.  The earlier revision behaves the same.
\<close>

theorem C10_condition_before_cancel:
  "(k \<le> j
      \<and> (\<forall>i. k \<le> i \<and> i < j \<longrightarrow>
            c (dom w i) = None \<and> \<not> cancelled (cancelTextsOf cc) (dom w i)
            \<and> clock w i - clock w k < T)
      \<and> c (dom w j) = Some v
    \<longrightarrow> waitForCondition w c T I cc k = Some (Some v, j))
   \<and> (c (dom w k) = Some v \<and> cancelled (cancelTextsOf cc) (dom w k)
        \<longrightarrow> waitForCondition w c T I cc k = Some (Some v, k))
   \<and> (waitForCondition w c T I cc k = Some (None, j) \<longrightarrow> c (dom w j) = None)
   \<and> (k \<le> j
      \<and> (\<forall>i. k \<le> i \<and> i < j \<longrightarrow>
            c (dom w i) = None \<and> \<not> cancelled1 ct (dom w i) \<and> clock w i - clock w k < T)
      \<and> c (dom w j) = Some v
    \<longrightarrow> waitForCondition1 w c T I ct k = Some (Some v, j))
   \<and> (c (dom w k) = Some v \<and> cancelled1 ct (dom w k)
        \<longrightarrow> waitForCondition1 w c T I ct k = Some (Some v, k))
   \<and> (waitForCondition1 w c T I ct k = Some (None, j) \<longrightarrow> c (dom w j) = None)"
proof -
  let ?cs = "cancelTextsOf cc"
  have a1: "k \<le> j
      \<and> (\<forall>i. k \<le> i \<and> i < j \<longrightarrow>
            c (dom w i) = None \<and> \<not> cancelled ?cs (dom w i) \<and> clock w i - clock w k < T)
      \<and> c (dom w j) = Some v
    \<longrightarrow> waitForCondition w c T I cc k = Some (Some v, j)"
  proof
    assume h: "k \<le> j
      \<and> (\<forall>i. k \<le> i \<and> i < j \<longrightarrow>
            c (dom w i) = None \<and> \<not> cancelled ?cs (dom w i) \<and> clock w i - clock w k < T)
      \<and> c (dom w j) = Some v"
    then have "check w c T ?cs k k = check w c T ?cs k j" by (intro check_skip) auto
    also have "\<dots> = Some (Some v, j)" using h by (intro check_stop_result) auto
    finally show "waitForCondition w c T I cc k = Some (Some v, j)"
      by (simp add: waitForCondition_def)
  qed
  have a2: "c (dom w k) = Some v \<and> cancelled ?cs (dom w k)
        \<longrightarrow> waitForCondition w c T I cc k = Some (Some v, k)"
    by (simp add: waitForCondition_def check_stop_result)
  have a3: "waitForCondition w c T I cc k = Some (None, j) \<longrightarrow> c (dom w j) = None"
    using check_sound [of w c T ?cs k k None j] by (simp add: waitForCondition_def)
  have b1: "k \<le> j
      \<and> (\<forall>i. k \<le> i \<and> i < j \<longrightarrow>
            c (dom w i) = None \<and> \<not> cancelled1 ct (dom w i) \<and> clock w i - clock w k < T)
      \<and> c (dom w j) = Some v
    \<longrightarrow> waitForCondition1 w c T I ct k = Some (Some v, j)"
  proof
    assume h: "k \<le> j
      \<and> (\<forall>i. k \<le> i \<and> i < j \<longrightarrow>
            c (dom w i) = None \<and> \<not> cancelled1 ct (dom w i) \<and> clock w i - clock w k < T)
      \<and> c (dom w j) = Some v"
    then have "check1 w c T ct k k = check1 w c T ct k j" by (intro check1_skip) auto
    also have "\<dots> = Some (Some v, j)" using h by (intro check1_stop_result) auto
    finally show "waitForCondition1 w c T I ct k = Some (Some v, j)"
      by (simp add: waitForCondition1_def)
  qed
  have b2: "c (dom w k) = Some v \<and> cancelled1 ct (dom w k)
        \<longrightarrow> waitForCondition1 w c T I ct k = Some (Some v, k)"
    by (simp add: waitForCondition1_def check1_stop_result)
  have b3: "waitForCondition1 w c T I ct k = Some (None, j) \<longrightarrow> c (dom w j) = None"
    using check1_sound [of w c T ct k k None j] by (simp add: waitForCondition1_def)
  show ?thesis using a1 a2 a3 b1 b2 b3 by blast
qed

theorem C10_condition_before_cancel_witness:
  "cancelled (cancelTextsOf (CancelText ''Continue'')) (dom slowWorld 0)
   \<and> waitForCondition slowWorld alwaysFound 1000 200 (CancelText ''Continue'') 0
      = Some (Some 7, 0)
   \<and> cancelled1 (Some ''Continue'') (dom slowWorld 0)
   \<and> waitForCondition1 slowWorld alwaysFound 1000 200 (Some ''Continue'') 0
      = Some (Some 7, 0)"
proof -
  note t = C10_condition_before_cancel [where w = slowWorld and k = 0 and j = 0
      and c = alwaysFound and v = 7 and cc = "CancelText ''Continue''"
      and ct = "Some ''Continue''" and T = 1000 and I = 200]
  have f: "alwaysFound (dom slowWorld 0) = Some 7" by (simp add: alwaysFound_def)
  show ?thesis using t f slowWorld_cancelled slowWorld_cancelled1 by blast
qed

section \<open>Handlers\<close>

lemma gameIsOver_iff:
  "gameIsOver s \<longleftrightarrow>
    (\<exists>t\<in>set [''Continue'', ''Play again'', ''Victory'', ''Defeat'', ''Draw''].
        occurs_in t (bodyTextContent s))"
  by (simp add: gameIsOver_def findTextInDocument_def str_includes_iff)

lemma in_game_not_over: "determineGameState s = IN_GAME \<Longrightarrow> \<not> gameIsOver s"
  by (auto simp: determineGameState_def Let_def split: if_splits)

text \<open>
  C3.  When the game-over predicate holds at the entry of a phase handler (the page text
  contains \<open>Continue\<close>, \<open>Play again\<close>, \<open>Victory\<close>, \<open>Defeat\<close> or \<open>Draw\<close>), the day handler and
  the night handler return at once, for every role and pairing, with no action at all: no
  click, no chat input, no wait.
\<close>

theorem C3_game_over_abort:
  "(gameIsOver (dom w k) \<longrightarrow>
      inGameDay w P ce playerImages allPlayers k = Some ([], Returned, k)
      \<and> inGameNight w P ce allPlayers k = Some ([], Returned, k))
   \<and> (gameIsOver (dom w k) \<longleftrightarrow>
        (\<exists>t\<in>set [''Continue'', ''Play again'', ''Victory'', ''Defeat'', ''Draw''].
            occurs_in t (bodyTextContent (dom w k))))"
  using gameIsOver_iff [of "dom w k"]
  by (simp add: inGameDay_def inGameNight_def Let_def)

lemma digit_is_word: "is_digit c \<Longrightarrow> is_word c"
  by (auto simp: is_digit_def is_word_def)

lemma isRun_all_word:
  assumes "list_all is_word s"
  shows "isRun r s \<longleftrightarrow> s \<noteq> [] \<and> r = s"
proof
  assume "isRun r s"
  then obtain p q where r: "r \<noteq> []" and s: "s = p @ r @ q"
    and p: "p = [] \<or> \<not> is_word (last p)" and q: "q = [] \<or> \<not> is_word (hd q)"
    by (auto simp: isRun_def)
  have "p = []"
  proof (rule ccontr)
    assume "p \<noteq> []"
    then have "last p \<in> set s" using s by simp
    then have "is_word (last p)" using assms by (simp add: list_all_iff)
    then show False using p \<open>p \<noteq> []\<close> by simp
  qed
  moreover have "q = []"
  proof (rule ccontr)
    assume "q \<noteq> []"
    then have "hd q \<in> set s" using s by simp
    then have "is_word (hd q)" using assms by (simp add: list_all_iff)
    then show False using q \<open>q \<noteq> []\<close> by simp
  qed
  ultimately show "s \<noteq> [] \<and> r = s" using s r by simp
next
  assume a: "s \<noteq> [] \<and> r = s"
  have "\<exists>p q. s = p @ r @ q \<and> (p = [] \<or> \<not> is_word (last p)) \<and> (q = [] \<or> \<not> is_word (hd q))"
    using a by (intro exI [of _ "[]"]) simp
  then show "isRun r s" unfolding isRun_def using a assms by simp
qed

lemma isRun_split:
  assumes a: "list_all is_word a" and c: "\<not> is_word c"
  shows "isRun r (a @ c # t) \<longleftrightarrow> (a \<noteq> [] \<and> r = a) \<or> isRun r t"
proof
  assume "isRun r (a @ c # t)"
  then obtain p q where r: "r \<noteq> []" and rw: "list_all is_word r"
    and s: "a @ c # t = p @ r @ q"
    and p: "p = [] \<or> \<not> is_word (last p)" and q: "q = [] \<or> \<not> is_word (hd q)"
    by (auto simp: isRun_def)
  from s obtain us where "(a = p @ us \<and> us @ c # t = r @ q) \<or> (a @ us = p \<and> c # t = us @ r @ q)"
    by (auto simp: append_eq_append_conv2)
  then show "(a \<noteq> [] \<and> r = a) \<or> isRun r t"
  proof
    assume A: "a = p @ us \<and> us @ c # t = r @ q"
    have "p = []"
    proof (rule ccontr)
      assume "p \<noteq> []"
      then have "last p \<in> set a" using A by simp
      then have "is_word (last p)" using a by (simp add: list_all_iff)
      then show False using p \<open>p \<noteq> []\<close> by simp
    qed
    then have e: "a @ c # t = r @ q" using A by simp
    then obtain vs where "(a = r @ vs \<and> vs @ c # t = q) \<or> (a @ vs = r \<and> c # t = vs @ q)"
      by (auto simp: append_eq_append_conv2)
    then show ?thesis
    proof
      assume A1: "a = r @ vs \<and> vs @ c # t = q"
      have "vs = []"
      proof (rule ccontr)
        assume ne: "vs \<noteq> []"
        then have "hd q = hd vs" using A1 by auto
        moreover have "hd vs \<in> set a" using A1 ne by simp
        then have "is_word (hd vs)" using a by (simp add: list_all_iff)
        moreover have "q \<noteq> []" using A1 by auto
        ultimately show False using q by simp
      qed
      then show ?thesis using A1 r by simp
    next
      assume A2: "a @ vs = r \<and> c # t = vs @ q"
      have "vs = []"
      proof (rule ccontr)
        assume ne: "vs \<noteq> []"
        then have "hd vs = c" using A2 by (cases vs) auto
        then have "c \<in> set r" using A2 ne by (cases vs) auto
        then show False using rw c by (simp add: list_all_iff)
      qed
      then show ?thesis using A2 r by simp
    qed
  next
    assume B: "a @ us = p \<and> c # t = us @ r @ q"
    have "us \<noteq> []"
    proof
      assume "us = []"
      then have "c # t = r @ q" using B by simp
      then have "c \<in> set r" using r by (cases r) auto
      then show False using rw c by (simp add: list_all_iff)
    qed
    then obtain us' where us: "us = c # us'" and t: "t = us' @ r @ q"
      using B by (cases us) auto
    have "us' = [] \<or> \<not> is_word (last us')"
    proof (cases "us' = []")
      case True
      then show ?thesis by simp
    next
      case False
      then have "last p = last us'" using B us by auto
      moreover have "p \<noteq> []" using B us by auto
      ultimately show ?thesis using p by simp
    qed
    then have "isRun r t" unfolding isRun_def using r rw t q by blast
    then show ?thesis by simp
  qed
next
  assume "(a \<noteq> [] \<and> r = a) \<or> isRun r t"
  then show "isRun r (a @ c # t)"
  proof
    assume h: "a \<noteq> [] \<and> r = a"
    have "a @ c # t = [] @ r @ (c # t)" using h by simp
    moreover have "c # t = [] \<or> \<not> is_word (hd (c # t))" using c by simp
    ultimately show ?thesis unfolding isRun_def using h a by blast
  next
    assume "isRun r t"
    then obtain p q where r: "r \<noteq> []" and rw: "list_all is_word r" and t: "t = p @ r @ q"
      and p: "p = [] \<or> \<not> is_word (last p)" and q: "q = [] \<or> \<not> is_word (hd q)"
      by (auto simp: isRun_def)
    have e: "a @ c # t = (a @ c # p) @ r @ q" using t by simp
    have "\<not> is_word (last (a @ c # p))" using p c by (cases "p = []") auto
    then have "(a @ c # p) = [] \<or> \<not> is_word (last (a @ c # p))" by simp
    then show ?thesis unfolding isRun_def using r rw e q by blast
  qed
qed

lemma wordRuns_runs:
  "list_all is_word run \<Longrightarrow> r \<in> set (wordRuns run t) \<longleftrightarrow> isRun r (rev run @ t)"
proof (induction run t rule: wordRuns.induct)
  case (1 run)
  then have "list_all is_word (rev run)" by (simp add: list_all_iff)
  then show ?case using isRun_all_word [of "rev run" r] by auto
next
  case (2 run c t)
  show ?case
  proof (cases "is_word c")
    case True
    then have "list_all is_word (c # run)" using "2.prems" by simp
    then have "r \<in> set (wordRuns (c # run) t) \<longleftrightarrow> isRun r (rev (c # run) @ t)"
      using "2.IH"(1) True by blast
    then show ?thesis using True by simp
  next
    case False
    have ih: "r \<in> set (wordRuns [] t) \<longleftrightarrow> isRun r t" using "2.IH"(2) False by simp
    have w: "list_all is_word (rev run)" using "2.prems" by (simp add: list_all_iff)
    have "isRun r (rev run @ c # t) \<longleftrightarrow> (rev run \<noteq> [] \<and> r = rev run) \<or> isRun r t"
      using isRun_split [OF w False] .
    then show ?thesis using False ih by auto
  qed
qed

lemma numberTokens_iff: "t \<in> set (numberTokens msg) \<longleftrightarrow> tokenOccurs t msg"
proof -
  have "t \<in> set (wordRuns [] msg) \<longleftrightarrow> isRun t msg"
    using wordRuns_runs [of "[]" t msg] by simp
  moreover have "list_all is_digit t \<Longrightarrow> list_all is_word t"
    using digit_is_word by (auto simp: list_all_iff)
  moreover have "t \<noteq> [] \<and> length t \<le> 2 \<longleftrightarrow> length t = 1 \<or> length t = 2"
  proof -
    have "t \<noteq> [] \<longleftrightarrow> length t \<noteq> 0" by simp
    then show ?thesis by arith
  qed
  ultimately show ?thesis
    unfolding numberTokens_def tokenOccurs_def isRun_def by auto
qed

lemma numberTokens_example: "numberTokens ''vote 12, not 123 or a7 but 5!'' = [''12'', ''5'']"
  by (simp add: numberTokens_def is_word_def is_digit_def)

lemma numberMentioned_iff:
  "numberMentioned s P \<longleftrightarrow>
    (\<exists>messages n m. getMessages s = Some messages \<and> number P = Some n \<and> m \<in> set messages
        \<and> tokenOccurs n m)"
proof -
  have "numberMentioned s P \<longleftrightarrow>
    (\<exists>messages n m. getMessages s = Some messages \<and> number P = Some n \<and> m \<in> set messages
        \<and> n \<in> set (numberTokens m))"
    by (auto simp: numberMentioned_def list_ex_iff split: option.splits) metis
  then show ?thesis by (simp add: numberTokens_iff)
qed

text \<open>
  C5, as the code has it.  In the day handler, for a player whose role is in \<open>WOLF_ROLES\<close>
  and who is not wolf-coupled: when a message of the extracted chat transcript has a token
  of one or two digits equal to the player's seat number, the handler returns with no
  action.  Otherwise, when the game is not over at the entry of the handler and the page
  has a chat input (a \<open>textarea\<close>), it sets the value of the chat input to the seat number,
  fires the \<open>input\<close> and \<open>change\<close> events, clicks the send icon and sleeps.  A token is an
  occurrence of one or two digits with no word character next to it.
\<close>

theorem C5_day_wolf_signal:
  assumes "role P \<in> WOLF_ROLES" and "\<not> isWolfCoupled P"
  shows "(numberMentioned (dom w k) P \<longrightarrow>
            inGameDay w P ce playerImages allPlayers k = Some ([], Returned, k))
    \<and> (\<not> numberMentioned (dom w k) P \<and> \<not> gameIsOver (dom w k)
          \<and> textarea (dom w k) = Some chatInput \<longrightarrow>
            inGameDay w P ce playerImages allPlayers k =
              Some ([SetValue chatInput (number P), DispatchEvent chatInput ''input'',
                     DispatchEvent chatInput ''change'', ClickElementByImage ''icon_send'',
                     Sleep 500], Returned, Suc k))
    \<and> (numberMentioned (dom w k) P \<longleftrightarrow>
          (\<exists>messages n m. getMessages (dom w k) = Some messages \<and> number P = Some n
              \<and> m \<in> set messages \<and> tokenOccurs n m))"
proof (intro conjI)
  show "numberMentioned (dom w k) P \<longrightarrow>
            inGameDay w P ce playerImages allPlayers k = Some ([], Returned, k)"
    using assms by (simp add: inGameDay_def Let_def)
  show "\<not> numberMentioned (dom w k) P \<and> \<not> gameIsOver (dom w k)
          \<and> textarea (dom w k) = Some chatInput \<longrightarrow>
            inGameDay w P ce playerImages allPlayers k =
              Some ([SetValue chatInput (number P), DispatchEvent chatInput ''input'',
                     DispatchEvent chatInput ''change'', ClickElementByImage ''icon_send'',
                     Sleep 500], Returned, Suc k)"
    using assms by (simp add: inGameDay_def Let_def)
  show "numberMentioned (dom w k) P \<longleftrightarrow>
          (\<exists>messages n m. getMessages (dom w k) = Some messages \<and> number P = Some n
              \<and> m \<in> set messages \<and> tokenOccurs n m)"
    by (rule numberMentioned_iff)
qed

lemma wolf_partner_row:
  "(is_wolf (coupleRole1 (playerInfo s myName)) \<longrightarrow> nth_flat (coupleElements s myName) 0 \<noteq> None)
   \<and> (is_wolf (coupleRole2 (playerInfo s myName)) \<longrightarrow> nth_flat (coupleElements s myName) 1 \<noteq> None)"
proof (intro conjI impI)
  assume "is_wolf (coupleRole1 (playerInfo s myName))"
  then have "coupleRole1 (playerInfo s myName) \<noteq> None"
    by (auto simp: is_wolf_def split: option.splits)
  then have "getRoleFromImage (nth_flat (extractRoleImage (coupleImageSets s myName)) 0) \<noteq> None"
    by (simp add: playerInfo_def Let_def)
  then have "nth_opt (otherLovers s myName) 0 \<noteq> None"
    using coupleRole_slot [of s myName 0] by (cases "nth_opt (otherLovers s myName) 0") auto
  then show "nth_flat (coupleElements s myName) 0 \<noteq> None"
    using nth_flat_couple [of 0 s myName] by simp
next
  assume "is_wolf (coupleRole2 (playerInfo s myName))"
  then have "coupleRole2 (playerInfo s myName) \<noteq> None"
    by (auto simp: is_wolf_def split: option.splits)
  then have "getRoleFromImage (nth_flat (extractRoleImage (coupleImageSets s myName)) 1) \<noteq> None"
    by (simp add: playerInfo_def Let_def)
  then have "nth_opt (otherLovers s myName) 1 \<noteq> None"
    using coupleRole_slot [of s myName 1] by (cases "nth_opt (otherLovers s myName) 1") auto
  then show "nth_flat (coupleElements s myName) 1 \<noteq> None"
    using nth_flat_couple [of 1 s myName] by simp
qed

lemma day_vote_first_action:
  assumes "\<not> gameIsOver (dom w k)" and "isWolfCoupled P"
    and "\<not> list_ex (\<lambda>imgSet. list_ex (\<lambda>img. str_includes img ''cupid'') imgSet) playerImages"
  shows "(is_wolf (coupleRole1 P) \<and> nth_flat ce 0 = Some e \<longrightarrow>
            inGameDay w P ce playerImages allPlayers k =
              prepend [ClickOutermostElement e] (coupledAbility w P ce allPlayers k))
    \<and> (\<not> is_wolf (coupleRole1 P) \<and> nth_flat ce 1 = Some e \<longrightarrow>
            is_wolf (coupleRole2 P) \<and>
            inGameDay w P ce playerImages allPlayers k =
              prepend [ClickOutermostElement e] (coupledAbility w P ce allPlayers k))
    \<and> (role P \<noteq> Priest \<and> role P \<noteq> Shooter \<longrightarrow>
          coupledAbility w P ce allPlayers k = Some ([], Returned, k))"
  using assms by (auto simp: inGameDay_def Let_def isWolfCoupled_def coupledAbility_def)

text \<open>
  C2, as the code has it.  In the day handler (entered with the game not over), for a
  wolf-coupled player whose own images carry no pairing icon, the first action is an
  outermost-click on the roster row of a partner whose role is in \<open>WOLF_ROLES\<close>: the row of
  the first partner when the first partner is a wolf, and otherwise the row of the second
  partner, who is then a wolf.  The ability of a Priest or a Shooter follows.  In the record
  and the couple list that \<open>inGame\<close> builds, a partner with a wolf role has a roster row.
\<close>

theorem C2_day_vote_target:
  assumes "\<not> gameIsOver (dom w k)" and "isWolfCoupled P"
    and "\<not> list_ex (\<lambda>imgSet. list_ex (\<lambda>img. str_includes img ''cupid'') imgSet) playerImages"
  shows "(is_wolf (coupleRole1 P) \<and> nth_flat ce 0 = Some e \<longrightarrow>
            inGameDay w P ce playerImages allPlayers k =
              prepend [ClickOutermostElement e] (coupledAbility w P ce allPlayers k))
    \<and> (\<not> is_wolf (coupleRole1 P) \<and> nth_flat ce 1 = Some e \<longrightarrow>
            is_wolf (coupleRole2 P) \<and>
            inGameDay w P ce playerImages allPlayers k =
              prepend [ClickOutermostElement e] (coupledAbility w P ce allPlayers k))
    \<and> (role P \<noteq> Priest \<and> role P \<noteq> Shooter \<longrightarrow>
          coupledAbility w P ce allPlayers k = Some ([], Returned, k))
    \<and> (is_wolf (coupleRole1 (playerInfo s myName)) \<longrightarrow>
          nth_flat (coupleElements s myName) 0 \<noteq> None)
    \<and> (is_wolf (coupleRole2 (playerInfo s myName)) \<longrightarrow>
          nth_flat (coupleElements s myName) 1 \<noteq> None)"
  using day_vote_first_action [OF assms, of ce e allPlayers] wolf_partner_row [of s myName]
  by simp

lemma slowWorld_over: "gameIsOver (dom slowWorld 0)"
  by (simp add: gameIsOver_def findTextInDocument_def slowWorld_def continuePage_def
      emptySnapshot_def)

lemma calmWorld_not_over: "\<not> gameIsOver (dom calmWorld 0)"
  by (simp add: gameIsOver_def findTextInDocument_def calmWorld_def emptySnapshot_def)

lemma chatWorld_not_over: "\<not> gameIsOver (dom chatWorld 0)"
  by (simp add: gameIsOver_def findTextInDocument_def chatWorld_def chatPage_def
      emptySnapshot_def)

lemma mentionWorld_not_over: "\<not> gameIsOver (dom mentionWorld 0)"
  by (simp add: gameIsOver_def findTextInDocument_def mentionWorld_def mentionPage_def
      chatPage_def emptySnapshot_def)

lemma chatWorld_silent: "\<not> numberMentioned (dom chatWorld 0) soloWolf"
  by (simp add: numberMentioned_def getMessages_def chatWorld_def chatPage_def
      emptySnapshot_def)

lemma mentionPage_messages: "getMessages mentionPage = Some [''vote 3'']"
  by (simp add: getMessages_def mentionPage_def chatPage_def emptySnapshot_def trim_def
      is_space_def)

lemma mentionWorld_mentions: "numberMentioned (dom mentionWorld 0) soloWolf"
  by (simp add: numberMentioned_def mentionPage_messages mentionWorld_def numberTokens_def
      is_word_def is_digit_def soloWolf_def)

theorem C3_game_over_abort_witness:
  "gameIsOver (dom slowWorld 0)
   \<and> inGameDay slowWorld wolfFirst [Some 1, Some 2] [] [] 0 = Some ([], Returned, 0)
   \<and> inGameNight slowWorld wolfFirst [Some 1, Some 2] [] 0 = Some ([], Returned, 0)"
  using C3_game_over_abort [of slowWorld 0 wolfFirst "[Some 1, Some 2]" "[]" "[]"]
    slowWorld_over by simp

lemma soloWolf_conditions: "role soloWolf \<in> WOLF_ROLES" "\<not> isWolfCoupled soloWolf"
  by (simp_all add: soloWolf_def WOLF_ROLES_def isWolfCoupled_def is_wolf_def)

lemma seat_token: "tokenOccurs ''3'' ''vote 3''"
proof -
  have "\<exists>p q. ''vote 3'' = p @ ''3'' @ q \<and> (p = [] \<or> \<not> is_word (last p))
      \<and> (q = [] \<or> \<not> is_word (hd q))"
    by (intro exI [of _ "''vote ''"] exI [of _ "[]"]) (simp add: is_word_def)
  then show ?thesis by (simp add: tokenOccurs_def is_digit_def)
qed

theorem C5_day_wolf_signal_witness:
  "numberMentioned (dom mentionWorld 0) soloWolf
   \<and> inGameDay mentionWorld soloWolf [None, None] [] [] 0 = Some ([], Returned, 0)
   \<and> inGameDay chatWorld soloWolf [None, None] [] [] 0 =
        Some ([SetValue 5 (Some ''3''), DispatchEvent 5 ''input'', DispatchEvent 5 ''change'',
               ClickElementByImage ''icon_send'', Sleep 500], Returned, 1)"
proof -
  note r = soloWolf_conditions
  have t: "textarea (dom chatWorld 0) = Some 5"
    by (simp add: chatWorld_def chatPage_def emptySnapshot_def)
  have n: "number soloWolf = Some ''3''" by (simp add: soloWolf_def)
  note t1 = C5_day_wolf_signal [OF r, where w = mentionWorld and k = 0 and ce = "[None, None]"
      and playerImages = "[]" and allPlayers = "[]" and chatInput = 5]
  note t2 = C5_day_wolf_signal [OF r, where w = chatWorld and k = 0 and ce = "[None, None]"
      and playerImages = "[]" and allPlayers = "[]" and chatInput = 5]
  have g: "getMessages (dom mentionWorld 0) = Some [''vote 3'']"
    by (simp add: mentionWorld_def mentionPage_messages)
  have "\<exists>messages n m. getMessages (dom mentionWorld 0) = Some messages
      \<and> number soloWolf = Some n \<and> m \<in> set messages \<and> tokenOccurs n m"
    using g n seat_token by (intro exI [of _ "[''vote 3'']"] exI [of _ "''3''"]
        exI [of _ "''vote 3''"]) simp
  then have 0: "numberMentioned (dom mentionWorld 0) soloWolf"
    using t1 [THEN conjunct2, THEN conjunct2] by simp
  have 1: "inGameDay mentionWorld soloWolf [None, None] [] [] 0 = Some ([], Returned, 0)"
    using t1 [THEN conjunct1] 0 by simp
  have 2: "inGameDay chatWorld soloWolf [None, None] [] [] 0 =
        Some ([SetValue 5 (number soloWolf), DispatchEvent 5 ''input'', DispatchEvent 5 ''change'',
               ClickElementByImage ''icon_send'', Sleep 500], Returned, Suc 0)"
    using t2 [THEN conjunct2, THEN conjunct1] chatWorld_silent chatWorld_not_over t by simp
  show ?thesis using 0 1 2 n by simp
qed

text \<open>Alice is a Wolf without partners and nobody has named her seat.  On a page without
  a chat input the handler throws before it has typed or clicked anything; on a page with
  a chat input that shows \<open>Victory\<close> it returns at once.  Neither run types the seat number
  or clicks the send icon.\<close>

theorem C5_no_send_counterexample:
  "role soloWolf \<in> WOLF_ROLES \<and> \<not> isWolfCoupled soloWolf
   \<and> \<not> numberMentioned (dom calmWorld 0) soloWolf
   \<and> inGameDay calmWorld soloWolf [None, None] [] [] 0 = Some ([], Threw, 0)
   \<and> \<not> numberMentioned (dom victoryWorld 0) soloWolf
   \<and> textarea (dom victoryWorld 0) = Some 5
   \<and> inGameDay victoryWorld soloWolf [None, None] [] [] 0 = Some ([], Returned, 0)"
  by (simp add: inGameDay_def Let_def gameIsOver_def findTextInDocument_def calmWorld_def
      victoryWorld_def victoryPage_def chatPage_def emptySnapshot_def isWolfCoupled_def
      is_wolf_def WOLF_ROLES_def soloWolf_def numberMentioned_def getMessages_def)

lemma wolfRoster_info:
  "playerInfo wolfRoster ''Alice'' =
    \<lparr> name = ''Alice'', number = Some ''1'', role = Unknown,
      coupleNumber1 = Some ''2'', coupleRole1 = Some Priest,
      coupleNumber2 = Some ''3'', coupleRole2 = Some Wolf \<rparr>"
  by code_simp

lemma wolfRoster_couple: "coupleElements wolfRoster ''Alice'' = [Some 2, Some 3]"
  by code_simp

theorem C2_day_vote_target_witness:
  "inGameDay calmWorld wolfFirst [Some 1, Some 2] [] [] 0
      = Some ([ClickOutermostElement 1], Returned, 0)
   \<and> inGameDay calmWorld wolfSecond [Some 1, Some 2] [] [] 0
      = Some ([ClickOutermostElement 2], Returned, 0)
   \<and> nth_flat (coupleElements wolfRoster ''Alice'') 1 \<noteq> None"
proof -
  have c1: "isWolfCoupled wolfFirst" "is_wolf (coupleRole1 wolfFirst)"
    "role wolfFirst \<noteq> Priest \<and> role wolfFirst \<noteq> Shooter"
    by (simp_all add: isWolfCoupled_def is_wolf_def wolfFirst_def WOLF_ROLES_def)
  have c2: "isWolfCoupled wolfSecond" "\<not> is_wolf (coupleRole1 wolfSecond)"
    "role wolfSecond \<noteq> Priest \<and> role wolfSecond \<noteq> Shooter"
    by (simp_all add: isWolfCoupled_def is_wolf_def wolfSecond_def WOLF_ROLES_def)
  have v: "\<not> list_ex (\<lambda>imgSet. list_ex (\<lambda>img. str_includes img ''cupid'') imgSet) []"
    by simp
  have e: "nth_flat [Some 1, Some (2::nat)] 0 = Some 1" "nth_flat [Some (1::nat), Some 2] 1 = Some 2"
    by (simp_all add: nth_flat_def)
  have r: "is_wolf (coupleRole2 (playerInfo wolfRoster ''Alice''))"
    by (simp add: wolfRoster_info is_wolf_def WOLF_ROLES_def)
  note t1 = C2_day_vote_target [OF calmWorld_not_over c1(1) v, where ce = "[Some 1, Some 2]"
      and e = 1 and allPlayers = "[]" and s = wolfRoster and myName = "''Alice''"]
  note t2 = C2_day_vote_target [OF calmWorld_not_over c2(1) v, where ce = "[Some 1, Some 2]"
      and e = 2 and allPlayers = "[]" and s = wolfRoster and myName = "''Alice''"]
  have 1: "inGameDay calmWorld wolfFirst [Some 1, Some 2] [] [] 0
      = prepend [ClickOutermostElement 1] (Some ([], Returned, 0))"
    using t1 c1 e by simp
  have 2: "inGameDay calmWorld wolfSecond [Some 1, Some 2] [] [] 0
      = prepend [ClickOutermostElement 2] (Some ([], Returned, 0))"
    using t2 c2 e by simp
  have 3: "nth_flat (coupleElements wolfRoster ''Alice'') 1 \<noteq> None"
    using t1 r by simp
  show ?thesis using 1 2 3 by (simp add: prepend_def)
qed

text \<open>Bob, the first partner, is a Priest and Carol, the second, a Werewolf.  The day vote
  that \<open>inGame\<close> casts for Alice is a click on the row of Carol (element 3), the wolf, and
  not on the row of Bob (element 2).\<close>

theorem C2_wolf_row_counterexample:
  "coupleElements wolfRoster ''Alice'' = [Some 2, Some 3]
   \<and> coupleRole1 (playerInfo wolfRoster ''Alice'') = Some Priest
   \<and> coupleRole2 (playerInfo wolfRoster ''Alice'') = Some Wolf
   \<and> inGame rosterWorld ''Alice'' 0 = Some ([ClickOutermostElement 3], Returned, 0)"
  by code_simp

section \<open>Lobby dwell time\<close>

lemma main_cases:
  "(determineGameState s \<noteq> LOBBY \<longrightarrow> main h ts now s = (None, h (determineGameState s) s))
   \<and> (determineGameState s = LOBBY \<and> ts = None \<longrightarrow> main h ts now s = (Some now, h LOBBY s))
   \<and> (determineGameState s = LOBBY \<and> ts = Some t \<and> now - t > 120000
        \<longrightarrow> main h ts now s = (Some t, [Reload]))
   \<and> (determineGameState s = LOBBY \<and> ts = Some t \<and> now - t \<le> 120000
        \<longrightarrow> main h ts now s = (Some t, h LOBBY s))"
  by (auto simp: main_def Let_def LOBBY_TIMEOUT_def)

lemma loop_lobby:
  "\<forall>c\<in>set cycles. determineGameState (snd c) = LOBBY \<Longrightarrow>
    loop h (Some t) cycles =
      (Some t, map (\<lambda>c. if fst c - t > 120000 then [Reload] else h LOBBY (snd c)) cycles)"
proof (induction cycles)
  case Nil
  then show ?case by simp
next
  case (Cons c cycles)
  obtain now s where c: "c = (now, s)" by (cases c)
  have "determineGameState s = LOBBY" using Cons.prems c by simp
  then have m: "main h (Some t) now s =
      (Some t, if now - t > 120000 then [Reload] else h LOBBY s)"
    by (simp add: main_def Let_def LOBBY_TIMEOUT_def)
  show ?case using Cons c m by simp
qed

lemma lobbyPage_state: "determineGameState lobbyPage = LOBBY"
  by (simp add: determineGameState_def lobbyPage_def emptySnapshot_def Let_def)

lemma votingPage_state: "determineGameState votingPage = IN_GAME"
  by (simp add: determineGameState_def votingPage_def emptySnapshot_def Let_def gameIsOver_def
      findTextInDocument_def)

text \<open>
  C4, as the code has it.  A cycle that classifies a state other than \<open>LOBBY\<close> resets the
  dwell timestamp.  The first \<open>LOBBY\<close> cycle after that records the time and asks for no
  reload.  Every later \<open>LOBBY\<close> cycle whose distance to the recorded time is above 120000 ms
  asks for one reload, runs no handler and leaves the timestamp as it is; so, as long as
  the script keeps cycling in the lobby, every cycle past the ceiling asks for a reload.
  A \<open>LOBBY\<close> cycle at or below the ceiling runs the lobby handler.
\<close>

theorem C4_lobby_dwell:
  "LOBBY_TIMEOUT = 120000
   \<and> (determineGameState s \<noteq> LOBBY \<longrightarrow>
        main h ts now s = (None, h (determineGameState s) s))
   \<and> (determineGameState s = LOBBY \<and> ts = None \<longrightarrow>
        main h ts now s = (Some now, h LOBBY s))
   \<and> (determineGameState s = LOBBY \<and> ts = Some t \<and> now - t > 120000 \<longrightarrow>
        main h ts now s = (Some t, [Reload]))
   \<and> (determineGameState s = LOBBY \<and> ts = Some t \<and> now - t \<le> 120000 \<longrightarrow>
        main h ts now s = (Some t, h LOBBY s))
   \<and> ((\<forall>c\<in>set cycles. determineGameState (snd c) = LOBBY) \<longrightarrow>
        loop h (Some t) cycles =
          (Some t, map (\<lambda>c. if fst c - t > 120000 then [Reload] else h LOBBY (snd c)) cycles))"
  using main_cases [where s = s and h = h and ts = ts and now = now and t = t]
    loop_lobby [where cycles = cycles and t = t and h = h]
  by (simp add: LOBBY_TIMEOUT_def)

theorem C4_lobby_dwell_witness:
  "main noHandlers (Some 7) 130000 votingPage = (None, [])
   \<and> main noHandlers None 0 lobbyPage = (Some 0, [])
   \<and> main noHandlers (Some 0) 120001 lobbyPage = (Some 0, [Reload])
   \<and> main noHandlers (Some 0) 120000 lobbyPage = (Some 0, [])
   \<and> loop noHandlers (Some 0) [(120001, lobbyPage), (121501, lobbyPage)]
      = (Some 0, [[Reload], [Reload]])"
proof -
  have 1: "main noHandlers (Some 7) 130000 votingPage = (None, [])"
    using C4_lobby_dwell [where s = votingPage and h = noHandlers and ts = "Some 7"
        and now = 130000] votingPage_state
    by (simp add: noHandlers_def LOBBY_TIMEOUT_def)
  have 2: "main noHandlers None 0 lobbyPage = (Some 0, [])"
    using C4_lobby_dwell [where s = lobbyPage and h = noHandlers and ts = None and now = 0]
      lobbyPage_state
    by (simp add: noHandlers_def LOBBY_TIMEOUT_def)
  have 3: "main noHandlers (Some 0) 120001 lobbyPage = (Some 0, [Reload])"
    using C4_lobby_dwell [where s = lobbyPage and h = noHandlers and ts = "Some 0"
        and now = 120001 and t = 0] lobbyPage_state
    by (simp add: LOBBY_TIMEOUT_def)
  have 4: "main noHandlers (Some 0) 120000 lobbyPage = (Some 0, [])"
    using C4_lobby_dwell [where s = lobbyPage and h = noHandlers and ts = "Some 0"
        and now = 120000 and t = 0] lobbyPage_state
    by (simp add: noHandlers_def LOBBY_TIMEOUT_def)
  have 5: "loop noHandlers (Some 0) [(120001, lobbyPage), (121501, lobbyPage)]
      = (Some 0, [[Reload], [Reload]])"
    using C4_lobby_dwell [where h = noHandlers and t = 0
        and cycles = "[(120001, lobbyPage), (121501, lobbyPage)]"] lobbyPage_state
    by (simp add: LOBBY_TIMEOUT_def)
  show ?thesis using 1 2 3 4 5 by simp
qed

text \<open>Three cycles in the lobby, the second past the ceiling: the second and the third
  cycle both ask for a reload.\<close>

theorem C4_repeated_reload_counterexample:
  "loop noHandlers None [(0, lobbyPage), (120001, lobbyPage), (121501, lobbyPage)]
    = (Some 0, [[], [Reload], [Reload]])"
  by (simp add: main_def lobbyPage_state Let_def LOBBY_TIMEOUT_def noHandlers_def)

section \<open>The Shooter\<close>

lemma lookings_append: "lookings (xs @ ys) = lookings xs @ lookings ys"
  by (induction xs rule: lookings.induct) auto

lemma awaited_append: "awaited (xs @ ys) = awaited xs @ awaited ys"
  by (induction xs rule: awaited.induct) auto

lemma waitForImageCount_total:
  assumes "\<forall>k. \<exists>j\<ge>k. T \<le> clock w j - clock w k"
  shows "\<exists>y. waitForImageCountInDOM w img n T c k = Some y"
proof -
  obtain j where "k \<le> j" "T \<le> clock w j - clock w k" using assms by blast
  then show ?thesis
    unfolding waitForImageCountInDOM_def waitForCondition_def by (rule check_total)
qed

lemma prepend_None: "prepend as r = None \<longleftrightarrow> r = None"
  by (simp add: prepend_def)

lemma shooter_total:
  "\<forall>k. \<exists>j\<ge>k. 90000 \<le> clock w j - clock w k
    \<Longrightarrow> shooterAction w P ce allPlayers n k \<noteq> None"
proof (induction w P ce allPlayers n k rule: shooterAction.induct)
  case (1 w P ce allPlayers n k)
  note live = "1.prems"
  show ?case
  proof (cases "n > 4")
    case True
    then show ?thesis by (subst shooterAction.simps) simp
  next
    case False
    obtain y where "waitForImageCountInDOM w VOTE_MARKER_IMG n 90000
        (CancelText ''Continue'') k = Some y"
      using waitForImageCount_total [OF live] by blast
    then obtain found k1 where wt: "waitForImageCountInDOM w VOTE_MARKER_IMG n 90000
        (CancelText ''Continue'') k = Some (found, k1)"
      by (cases y) simp
    show ?thesis
    proof (cases "gameIsOver (dom w k1)")
      case True
      then show ?thesis using False wt by (subst shooterAction.simps) simp
    next
      case notover: False
      show ?thesis
      proof (cases "find (\<lambda>el. findImageInElement (dom w (Suc k1)) el VOTE_MARKER_IMG \<and>
                               Some el \<notin> set ce \<and>
                               \<not> str_includes (textContent (dom w (Suc k1)) el) (name P))
                      allPlayers")
        case None
        from "1.IH" [OF False wt refl notover None live]
        have "shooterAction w P ce allPlayers (n + 1) (Suc (Suc k1)) \<noteq> None" .
        then show ?thesis using False wt notover None
          by (subst shooterAction.simps) (simp add: prepend_None)
      next
        case (Some target)
        then show ?thesis using False wt notover
          by (subst shooterAction.simps) simp
      qed
    qed
  qed
qed


lemma shooter_trace:
  "shooterAction w P ce allPlayers n k = Some (tr, oc, k') \<Longrightarrow>
    oc = Returned \<and> tr \<noteq> [] \<and>
    (\<exists>m. n \<le> m \<and> m \<le> max n 5 \<and> lookings tr = [n..m] \<and> awaited tr = [n..min m 4]
        \<and> (m > 4 \<longrightarrow> last tr = LogLooking m))"
proof (induction w P ce allPlayers n k arbitrary: tr oc k' rule: shooterAction.induct)
  case (1 w P ce allPlayers n k)
  note eq = "1.prems" [unfolded shooterAction.simps [of w P ce allPlayers n k]]
  show ?case
  proof (cases "n > 4")
    case True
    then have "tr = [LogLooking n]" "oc = Returned" using eq by auto
    then show ?thesis using True by (auto intro!: exI [of _ n])
  next
    case False
    then obtain found k1 where wt: "waitForImageCountInDOM w VOTE_MARKER_IMG n 90000
        (CancelText ''Continue'') k = Some (found, k1)"
      using eq by (auto split: option.splits)
    show ?thesis
    proof (cases "gameIsOver (dom w k1)")
      case True
      then have "tr = [LogLooking n, AwaitImageCount VOTE_MARKER_IMG n]" "oc = Returned"
        using eq False wt by auto
      then show ?thesis using False by (auto intro!: exI [of _ n])
    next
      case notover: False
      show ?thesis
      proof (cases "find (\<lambda>el. findImageInElement (dom w (Suc k1)) el VOTE_MARKER_IMG \<and>
                               Some el \<notin> set ce \<and>
                               \<not> str_includes (textContent (dom w (Suc k1)) el) (name P))
                      allPlayers")
        case (Some target)
        then have "tr = [LogLooking n, AwaitImageCount VOTE_MARKER_IMG n,
              ClickElementByImage ''gunner_bullet'', Sleep 200,
              ClickElementByImageInElement target ''gunner_voting_shoot'']" "oc = Returned"
          using eq False wt notover by auto
        then show ?thesis using False by (auto intro!: exI [of _ n])
      next
        case None
        let ?pre = "[LogLooking n, AwaitImageCount VOTE_MARKER_IMG n,
              ClickElementByImage ''gunner_bullet'', Sleep 200, Sleep 500]"
        from eq False wt notover None obtain tr1 where
          rec: "shooterAction w P ce allPlayers (n + 1) (Suc (Suc k1)) = Some (tr1, oc, k')"
          and tr: "tr = ?pre @ tr1"
          by (auto simp: prepend_def)
        from "1.IH" [OF False wt refl notover None rec] obtain m where
          ih: "oc = Returned" "tr1 \<noteq> []" "n + 1 \<le> m" "m \<le> max (n + 1) 5"
            "lookings tr1 = [n + 1..m]" "awaited tr1 = [n + 1..min m 4]"
            "m > 4 \<longrightarrow> last tr1 = LogLooking m" by blast
        have l: "lookings tr = [n..m]"
          using ih(3,5) tr by (simp add: upto_rec1 [of n m])
        have a: "awaited tr = [n..min m 4]"
          using ih(3,6) tr False by (simp add: upto_rec1 [of n "min m 4"])
        have "last tr = last tr1" using tr ih(2) by simp
        then show ?thesis using ih l a tr False by (auto intro!: exI [of _ m])
      qed
    qed
  qed
qed

lemma upto_vals:
  "[2..(2::int)] = [2]" "[2..(3::int)] = [2, 3]" "[2..(4::int)] = [2, 3, 4]"
  "[2..(5::int)] = [2, 3, 4, 5]"
  by (simp_all add: upto_rec1)

lemma shooter_cap: "n > 4 \<Longrightarrow> shooterAction w P ce allPlayers n k = Some ([LogLooking n], Returned, k)"
  by (subst shooterAction.simps) simp

lemma shooter_returns:
  assumes live: "\<forall>i. \<exists>j\<ge>i. 90000 \<le> clock w j - clock w i"
  shows "\<exists>tr k'. shooterAction w P ce allPlayers n k = Some (tr, Returned, k')"
proof -
  from live have "shooterAction w P ce allPlayers n k \<noteq> None" by (rule shooter_total)
  then obtain y where y: "shooterAction w P ce allPlayers n k = Some y" by blast
  obtain tr oc k' where "y = (tr, oc, k')" by (cases y)
  then have r: "shooterAction w P ce allPlayers n k = Some (tr, oc, k')" using y by simp
  from shooter_trace [OF r] have "oc = Returned" by (rule conjunct1)
  then show ?thesis using r by blast
qed

lemma shooter_from_two:
  assumes r: "shooterAction w P ce allPlayers 2 k = Some (tr, oc, k')"
  shows "lookings tr \<in> {[2], [2, 3], [2, 3, 4], [2, 3, 4, 5]}
        \<and> awaited tr = filter (\<lambda>i. i \<le> 4) (lookings tr)
        \<and> length (lookings tr) \<le> 4
        \<and> (\<forall>a\<in>set (awaited tr). a \<le> 4)"
proof -
  from shooter_trace [OF r] have
    "\<exists>m. 2 \<le> m \<and> m \<le> max 2 5 \<and> lookings tr = [2..m] \<and> awaited tr = [2..min m 4]
        \<and> (m > 4 \<longrightarrow> last tr = LogLooking m)" by (elim conjE)
  then obtain m where
    m: "2 \<le> m" "m \<le> max 2 5" "lookings tr = [2..m]" "awaited tr = [2..min m 4]"
    by (elim exE conjE)
  from m(1,2) consider "m = 2" | "m = 3" | "m = 4" | "m = 5" by arith
  then show ?thesis
  proof cases
    case 1
    then have "lookings tr = [2]" "awaited tr = [2]" using m(3,4) by (simp_all add: upto_vals)
    then show ?thesis by simp
  next
    case 2
    then have "lookings tr = [2, 3]" "awaited tr = [2, 3]"
      using m(3,4) by (simp_all add: upto_vals)
    then show ?thesis by simp
  next
    case 3
    then have "lookings tr = [2, 3, 4]" "awaited tr = [2, 3, 4]"
      using m(3,4) by (simp_all add: upto_vals)
    then show ?thesis by simp
  next
    case 4
    then have "lookings tr = [2, 3, 4, 5]" "awaited tr = [2, 3, 4]"
      using m(3,4) by (simp_all add: upto_vals)
    then show ?thesis by simp
  qed
qed


text \<open>
  C9.  \<open>shooterAction\<close> returns on every input, provided the clock advances (each of its
  waits has a timeout of 90 seconds).  An invocation with a threshold above 4 returns at
  once: it prints its line and neither waits nor clicks.  From a threshold \<open>n\<close> the
  invocations have the thresholds \<open>n\<close>, \<open>n + 1\<close>, ... up to some \<open>m\<close> that is at most 5 (or \<open>n\<close>
  itself), each retry adding 1, and only thresholds up to 4 are waited for.  From the
  initial threshold 2 there are at most four invocations, that is at most three retries,
  the last of which (threshold 5) does nothing.
\<close>

theorem C9_shooter_bounded:
  "(n > 4 \<longrightarrow> shooterAction w P ce allPlayers n k = Some ([LogLooking n], Returned, k))
   \<and> ((\<forall>i. \<exists>j\<ge>i. 90000 \<le> clock w j - clock w i) \<longrightarrow>
        (\<exists>tr k'. shooterAction w P ce allPlayers n k = Some (tr, Returned, k')))
   \<and> (shooterAction w P ce allPlayers n k = Some (tr, oc, k') \<longrightarrow>
        oc = Returned
        \<and> (\<exists>m. n \<le> m \<and> m \<le> max n 5 \<and> lookings tr = [n..m] \<and> awaited tr = [n..min m 4]
              \<and> (m > 4 \<longrightarrow> last tr = LogLooking m)))
   \<and> (shooterAction w P ce allPlayers 2 k = Some (tr, oc, k') \<longrightarrow>
        lookings tr \<in> {[2], [2, 3], [2, 3, 4], [2, 3, 4, 5]}
        \<and> awaited tr = filter (\<lambda>i. i \<le> 4) (lookings tr)
        \<and> length (lookings tr) \<le> 4
        \<and> (\<forall>a\<in>set (awaited tr). a \<le> 4))"
proof -
  have 1: "n > 4 \<longrightarrow> shooterAction w P ce allPlayers n k = Some ([LogLooking n], Returned, k)"
    by (rule impI) (rule shooter_cap)
  have 2: "(\<forall>i. \<exists>j\<ge>i. 90000 \<le> clock w j - clock w i) \<longrightarrow>
        (\<exists>tr k'. shooterAction w P ce allPlayers n k = Some (tr, Returned, k'))"
    by (rule impI) (rule shooter_returns)
  have 3: "shooterAction w P ce allPlayers n k = Some (tr, oc, k') \<longrightarrow>
        oc = Returned
        \<and> (\<exists>m. n \<le> m \<and> m \<le> max n 5 \<and> lookings tr = [n..m] \<and> awaited tr = [n..min m 4]
              \<and> (m > 4 \<longrightarrow> last tr = LogLooking m))"
  proof
    assume r: "shooterAction w P ce allPlayers n k = Some (tr, oc, k')"
    from shooter_trace [OF r] show "oc = Returned
        \<and> (\<exists>m. n \<le> m \<and> m \<le> max n 5 \<and> lookings tr = [n..m] \<and> awaited tr = [n..min m 4]
              \<and> (m > 4 \<longrightarrow> last tr = LogLooking m))"
      by (elim conjE, intro conjI) assumption+
  qed
  have 4: "shooterAction w P ce allPlayers 2 k = Some (tr, oc, k') \<longrightarrow>
        lookings tr \<in> {[2], [2, 3], [2, 3, 4], [2, 3, 4, 5]}
        \<and> awaited tr = filter (\<lambda>i. i \<le> 4) (lookings tr)
        \<and> length (lookings tr) \<le> 4
        \<and> (\<forall>a\<in>set (awaited tr). a \<le> 4)"
    by (rule impI) (rule shooter_from_two)
  show ?thesis by (intro conjI) (rule 1, rule 2, rule 3, rule 4)
qed


lemma calmWorld_live: "\<forall>i. \<exists>j\<ge>i. 90000 \<le> clock calmWorld j - clock calmWorld i"
proof
  fix i :: nat
  have "i \<le> i + 180" by simp
  moreover have "90000 \<le> clock calmWorld (i + 180) - clock calmWorld i"
    by (simp add: calmWorld_def)
  ultimately show "\<exists>j\<ge>i. 90000 \<le> clock calmWorld j - clock calmWorld i" by blast
qed

lemma calmWorld_wait:
  "waitForImageCountInDOM calmWorld VOTE_MARKER_IMG n 90000 (CancelText ''Continue'') k
    = Some (None, k + 180)"
proof -
  let ?c = "\<lambda>s. imageCountLoop s VOTE_MARKER_IMG n [] (documentImages s)"
  let ?cs = "cancelTextsOf (CancelText ''Continue'')"
  have quiet: "\<forall>i. k \<le> i \<and> i < k + 180 \<longrightarrow> ?c (dom calmWorld i) = None
      \<and> \<not> cancelled ?cs (dom calmWorld i) \<and> clock calmWorld i - clock calmWorld k < 90000"
    by (auto simp: calmWorld_def emptySnapshot_def cancelled_def cancelTextsOf_def)
  have "check calmWorld ?c 90000 ?cs k k = check calmWorld ?c 90000 ?cs k (k + 180)"
    by (rule check_skip) (simp, rule quiet)
  also have "\<dots> = Some (None, k + 180)"
    by (rule check_stop_null) (simp_all add: calmWorld_def emptySnapshot_def)
  finally show ?thesis by (simp add: waitForImageCountInDOM_def waitForCondition_def)
qed

lemma calmWorld_not_over_at: "\<not> gameIsOver (dom calmWorld i)"
  by (simp add: gameIsOver_def findTextInDocument_def calmWorld_def emptySnapshot_def)

lemma calmWorld_shooter:
  "shooterAction calmWorld soloWolf [] [] 2 0 =
    Some ([LogLooking 2, AwaitImageCount VOTE_MARKER_IMG 2,
           ClickElementByImage ''gunner_bullet'', Sleep 200, Sleep 500,
           LogLooking 3, AwaitImageCount VOTE_MARKER_IMG 3,
           ClickElementByImage ''gunner_bullet'', Sleep 200, Sleep 500,
           LogLooking 4, AwaitImageCount VOTE_MARKER_IMG 4,
           ClickElementByImage ''gunner_bullet'', Sleep 200, Sleep 500,
           LogLooking 5], Returned, 546)"
  by (simp add: shooterAction.simps calmWorld_wait calmWorld_not_over_at prepend_def)


theorem C9_shooter_bounded_witness:
  "shooterAction calmWorld soloWolf [] [] 5 0 = Some ([LogLooking 5], Returned, 0)
   \<and> (\<exists>tr k'. shooterAction calmWorld soloWolf [] [] 3 0 = Some (tr, Returned, k'))
   \<and> lookings [LogLooking 2, AwaitImageCount VOTE_MARKER_IMG 2,
           ClickElementByImage ''gunner_bullet'', Sleep 200, Sleep 500,
           LogLooking 3, AwaitImageCount VOTE_MARKER_IMG 3,
           ClickElementByImage ''gunner_bullet'', Sleep 200, Sleep 500,
           LogLooking 4, AwaitImageCount VOTE_MARKER_IMG 4,
           ClickElementByImage ''gunner_bullet'', Sleep 200, Sleep 500,
           LogLooking 5]
        \<in> {[2], [2, 3], [2, 3, 4], [2, 3, 4, 5]}"
proof -
  have five: "(5::int) > 4" by simp
  have 1: "shooterAction calmWorld soloWolf [] [] 5 0 = Some ([LogLooking 5], Returned, 0)"
    by (rule C9_shooter_bounded [where n = 5 and w = calmWorld and P = soloWolf and ce = "[]"
        and allPlayers = "[]" and k = 0, THEN conjunct1, THEN mp, OF five])
  have 2: "\<exists>tr k'. shooterAction calmWorld soloWolf [] [] 3 0 = Some (tr, Returned, k')"
    by (rule C9_shooter_bounded [where n = 3 and w = calmWorld and P = soloWolf and ce = "[]"
        and allPlayers = "[]" and k = 0, THEN conjunct2, THEN conjunct1, THEN mp,
        OF calmWorld_live])
  note 4 = C9_shooter_bounded [where w = calmWorld and P = soloWolf and ce = "[]"
        and allPlayers = "[]" and k = 0 and oc = Returned and k' = 546,
        THEN conjunct2, THEN conjunct2, THEN conjunct2, THEN mp, OF calmWorld_shooter]
  show ?thesis
    by (intro conjI) (rule 1, rule 2, rule 4 [THEN conjunct1])
qed

end
